theory Spec2Isabelle
  imports Main "HOL-Library.Log_Nat"
begin

section \<open>Strings of the host language\<close>

text \<open>
  A JavaScript string is a sequence of UTF-16 code units, and \<open>length\<close> counts code
  units.  A code unit is a natural number below \<open>65536\<close>; \<open>js\<close> turns an ASCII literal
  into such a sequence.
\<close>

type_synonym jsstring = "nat list"

definition js :: "string \<Rightarrow> jsstring" where
  "js s = map of_char s"

text \<open>\<open>s.startsWith(p)\<close>, \<open>s.endsWith(p)\<close>, \<open>s.includes(p)\<close>, \<open>s.split(c)[0]\<close>.\<close>

fun startsWith :: "jsstring \<Rightarrow> jsstring \<Rightarrow> bool" where
  "startsWith s [] = True"
| "startsWith [] (p # ps) = False"
| "startsWith (x # xs) (p # ps) = (x = p \<and> startsWith xs ps)"

definition endsWith :: "jsstring \<Rightarrow> jsstring \<Rightarrow> bool" where
  "endsWith s p = startsWith (rev s) (rev p)"

fun includesStr :: "jsstring \<Rightarrow> jsstring \<Rightarrow> bool" where
  "includesStr [] p = (p = [])"
| "includesStr (x # xs) p = (startsWith (x # xs) p \<or> includesStr xs p)"

definition splitFirst :: "nat \<Rightarrow> jsstring \<Rightarrow> jsstring" where
  "splitFirst c s = takeWhile (\<lambda>x. x \<noteq> c) s"

text \<open>
  The code units that \<open>\s\<close> matches and that \<open>trim\<close> removes: the WhiteSpace and
  LineTerminator productions of the language.
\<close>

definition isWhiteSpace :: "nat \<Rightarrow> bool" where
  "isWhiteSpace c =
     (c = 9 \<or> c = 10 \<or> c = 11 \<or> c = 12 \<or> c = 13 \<or> c = 32 \<or> c = 160 \<or> c = 5760
      \<or> (8192 \<le> c \<and> c \<le> 8202) \<or> c = 8232 \<or> c = 8233 \<or> c = 8239 \<or> c = 8287
      \<or> c = 12288 \<or> c = 65279)"

definition trim :: "jsstring \<Rightarrow> jsstring" where
  "trim s = rev (dropWhile isWhiteSpace (rev (dropWhile isWhiteSpace s)))"

text \<open>
  \<open>String.fromCharCode(parseInt(num, 10))\<close> on a string of decimal digits.  \<open>parseInt\<close>
  yields the double nearest to the integer (ties to even), and \<open>fromCharCode\<close> keeps
  the value modulo \<open>65536\<close>.  Beyond the largest double the host yields Infinity, whose
  code unit is \<open>0\<close>; the rounded integer is then a multiple of \<open>65536\<close> as well.
\<close>

definition digitsToNat :: "jsstring \<Rightarrow> nat" where
  "digitsToNat ds = foldl (\<lambda>a d. 10 * a + (d - 48)) 0 ds"

definition roundToDouble :: "nat \<Rightarrow> nat" where
  "roundToDouble n =
     (if n < 2 ^ 53 then n
      else let e = floorlog 2 n - 53;
               q = n div 2 ^ e;
               r = n mod 2 ^ e;
               half = 2 ^ (e - 1);
               q' = (if r > half \<or> (r = half \<and> odd q) then q + 1 else q)
           in q' * 2 ^ e)"

definition fromCharCode :: "nat \<Rightarrow> nat" where
  "fromCharCode n = n mod 65536"

section \<open>Numbers of the host language\<close>

text \<open>
  A number of the host is a double, or one of the three values that are no finite
  number.  Every double is a rational, so the finite numbers are the rationals here.  A
  property that holds \<open>undefined\<close> is \<open>None\<close>; in a comparison it stands for \<open>NaN\<close>,
  and every comparison with \<open>NaN\<close> is false.  The lengths and the depths of a run are
  integers; \<open>lessNumber a b\<close> is \<open>a < b\<close> and \<open>greaterNumber a b\<close> is \<open>a > b\<close> for an
  integer \<open>a\<close>.
\<close>

datatype jsnumber = Finite rat | PosInfinity | NegInfinity | NaN

definition toNumber :: "jsnumber option \<Rightarrow> jsnumber" where
  "toNumber v = (case v of None \<Rightarrow> NaN | Some n \<Rightarrow> n)"

fun lessNumber :: "int \<Rightarrow> jsnumber \<Rightarrow> bool" where
  "lessNumber a (Finite r) = (of_int a < r)"
| "lessNumber a PosInfinity = True"
| "lessNumber a NegInfinity = False"
| "lessNumber a NaN = False"

fun greaterNumber :: "int \<Rightarrow> jsnumber \<Rightarrow> bool" where
  "greaterNumber a (Finite r) = (r < of_int a)"
| "greaterNumber a PosInfinity = False"
| "greaterNumber a NegInfinity = True"
| "greaterNumber a NaN = False"

section \<open>Regular expressions\<close>

text \<open>
  The patterns of the crawler use character classes, sequence, alternation, greedy and
  lazy repetition and capture groups; none uses anchors, look-around or back
  references.  \<open>rmatch r s c k\<close> matches \<open>r\<close> at the front of \<open>s\<close> and hands the rest of the
  input and the captures to the continuation \<open>k\<close>; alternatives are tried in the
  backtracking order of the host engine, and an iteration of a repetition that consumes
  nothing is rejected.
\<close>

datatype rx =
    Ch "nat \<Rightarrow> bool"
  | Eps
  | Seq rx rx
  | Alt rx rx
  | Star rx
  | Lazy rx
  | Grp nat rx

type_synonym caps = "nat \<Rightarrow> jsstring"

function (sequential) rmatch ::
  "rx \<Rightarrow> jsstring \<Rightarrow> caps \<Rightarrow> (jsstring \<Rightarrow> caps \<Rightarrow> 'r option) \<Rightarrow> 'r option" where
  "rmatch (Ch p) [] c k = None"
| "rmatch (Ch p) (x # xs) c k = (if p x then k xs c else None)"
| "rmatch Eps s c k = k s c"
| "rmatch (Seq a b) s c k = rmatch a s c (\<lambda>s' c'. rmatch b s' c' k)"
| "rmatch (Alt a b) s c k =
     (case rmatch a s c k of Some r \<Rightarrow> Some r | None \<Rightarrow> rmatch b s c k)"
| "rmatch (Star a) s c k =
     (case rmatch a s c
             (\<lambda>s' c'. if length s' < length s then rmatch (Star a) s' c' k else None) of
        Some r \<Rightarrow> Some r
      | None \<Rightarrow> k s c)"
| "rmatch (Lazy a) s c k =
     (case k s c of
        Some r \<Rightarrow> Some r
      | None \<Rightarrow>
          rmatch a s c
            (\<lambda>s' c'. if length s' < length s then rmatch (Lazy a) s' c' k else None))"
| "rmatch (Grp n a) s c k =
     rmatch a s c (\<lambda>s' c'. k s' (c'(n := take (length s - length s') s)))"
  by pat_completeness auto
termination
  by (relation "inv_image (less_than <*lex*> less_than) (\<lambda>(r, s, c, k). (size r, length s))")
    auto

definition noCaps :: caps where
  "noCaps = (\<lambda>_. [])"

definition matchAt :: "rx \<Rightarrow> jsstring \<Rightarrow> (jsstring \<times> caps) option" where
  "matchAt r s = rmatch r s noCaps (\<lambda>s' c. Some (s', c))"

text \<open>
  \<open>s.replace(/r/g, f)\<close>: the leftmost match is replaced and the scan goes on behind it;
  after an empty match it moves one code unit ahead.
\<close>

function replaceAll :: "rx \<Rightarrow> (caps \<Rightarrow> jsstring) \<Rightarrow> jsstring \<Rightarrow> jsstring" where
  "replaceAll r f [] = (case matchAt r [] of None \<Rightarrow> [] | Some (s', c) \<Rightarrow> f c)"
| "replaceAll r f (x # xs) =
     (case matchAt r (x # xs) of
        None \<Rightarrow> x # replaceAll r f xs
      | Some (s', c) \<Rightarrow>
          if length s' < length (x # xs) then f c @ replaceAll r f s'
          else f c @ x # replaceAll r f xs)"
  by pat_completeness auto
termination
  by (relation "measure (\<lambda>(r, f, s). length s)") auto

text \<open>\<open>(s.match(/r/g) || []).length\<close>: the number of matches of the same scan.\<close>

function matchCount :: "rx \<Rightarrow> jsstring \<Rightarrow> nat" where
  "matchCount r [] = (case matchAt r [] of None \<Rightarrow> 0 | Some (s', c) \<Rightarrow> 1)"
| "matchCount r (x # xs) =
     (case matchAt r (x # xs) of
        None \<Rightarrow> matchCount r xs
      | Some (s', c) \<Rightarrow>
          if length s' < length (x # xs) then 1 + matchCount r s'
          else 1 + matchCount r xs)"
  by pat_completeness auto
termination
  by (relation "measure (\<lambda>(r, s). length s)") auto

text \<open>Building blocks for the pattern literals.\<close>

definition rx_chr :: "char \<Rightarrow> rx" where
  "rx_chr a = Ch (\<lambda>x. x = of_char a)"

definition rx_not :: "char \<Rightarrow> rx" where
  "rx_not a = Ch (\<lambda>x. x \<noteq> of_char a)"

definition rx_any :: rx where
  "rx_any = Ch (\<lambda>_. True)"

definition rx_digit :: rx where
  "rx_digit = Ch (\<lambda>x. 48 \<le> x \<and> x \<le> 57)"

text \<open>
  A letter of a pattern under the flag \<open>i\<close> (without \<open>u\<close>): an ASCII letter matches
  its two cases and no code unit above 127; any other code unit of the literals used
  here matches itself.
\<close>

definition isUpperAscii :: "nat \<Rightarrow> bool" where
  "isUpperAscii x = (65 \<le> x \<and> x \<le> 90)"

definition isLowerAscii :: "nat \<Rightarrow> bool" where
  "isLowerAscii x = (97 \<le> x \<and> x \<le> 122)"

definition rx_chrI :: "nat \<Rightarrow> rx" where
  "rx_chrI a = Ch (\<lambda>x. x = a \<or> (isLowerAscii a \<and> x + 32 = a) \<or> (isUpperAscii a \<and> x = a + 32))"

definition rx_lit :: "string \<Rightarrow> rx" where
  "rx_lit s = foldr (\<lambda>a r. Seq (rx_chr a) r) s Eps"

definition rx_litI :: "string \<Rightarrow> rx" where
  "rx_litI s = foldr (\<lambda>a r. Seq (rx_chrI (of_char a)) r) s Eps"

definition rx_seqs :: "rx list \<Rightarrow> rx" where
  "rx_seqs rs = foldr Seq rs Eps"

definition rx_plus :: "rx \<Rightarrow> rx" where
  "rx_plus r = Seq r (Star r)"

definition rx_opt :: "rx \<Rightarrow> rx" where
  "rx_opt r = Alt r Eps"

section \<open>Markup to text\<close>

text \<open>\<open>/<tag[^>]*>([\s\S]*?)<\/tag>/gi\<close>, the shape of most rewrites.\<close>

definition rx_element :: "string \<Rightarrow> rx" where
  "rx_element tag =
     rx_seqs [rx_litI (''<'' @ tag), Star (rx_not CHR ''>''), rx_chr CHR ''>'',
           Grp 1 (Lazy rx_any), rx_litI (''</'' @ tag @ ''>'')]"

text \<open>\<open>/<tag[^>]*>|<\/tag>/gi\<close>.\<close>

definition rx_openOrClose :: "string \<Rightarrow> rx" where
  "rx_openOrClose tag =
     Alt (rx_seqs [rx_litI (''<'' @ tag), Star (rx_not CHR ''>''), rx_chr CHR ''>''])
         (rx_litI (''</'' @ tag @ ''>''))"

definition entities :: "(string \<times> jsstring) list" where
  "entities =
     [(''&nbsp;'', js '' ''), (''&amp;'', js ''&''), (''&lt;'', js ''<''), (''&gt;'', js ''>''),
      (''&quot;'', [34]), (''&#39;'', [39]), (''&apos;'', [39])]"

definition decodeHtmlEntities :: "jsstring \<Rightarrow> jsstring" where
  "decodeHtmlEntities text =
     (let result = foldl (\<lambda>result (entity, char). replaceAll (rx_lit entity) (\<lambda>_. char) result)
                     text entities
      in replaceAll (rx_seqs [rx_lit ''&#'', Grp 1 (rx_plus rx_digit), rx_chr CHR '';''])
           (\<lambda>c. [fromCharCode (roundToDouble (digitsToNat (c 1)))]) result)"

definition nl :: jsstring where
  "nl = [10]"

definition htmlToMarkdown :: "jsstring \<Rightarrow> bool \<Rightarrow> jsstring" where
  "htmlToMarkdown html includeImages =
     (let text = html;
          text = replaceAll (rx_element ''script'') (\<lambda>_. []) text;
          text = replaceAll (rx_element ''style'') (\<lambda>_. []) text;
          text = replaceAll (rx_element ''h1'') (\<lambda>c. nl @ js ''# '' @ c 1 @ nl) text;
          text = replaceAll (rx_element ''h2'') (\<lambda>c. nl @ js ''## '' @ c 1 @ nl) text;
          text = replaceAll (rx_element ''h3'') (\<lambda>c. nl @ js ''### '' @ c 1 @ nl) text;
          text = replaceAll (rx_element ''h4'') (\<lambda>c. nl @ js ''#### '' @ c 1 @ nl) text;
          text = replaceAll (rx_element ''p'') (\<lambda>c. nl @ c 1 @ nl) text;
          text = replaceAll
                   (rx_seqs [rx_litI ''<br'', Star (Ch isWhiteSpace), rx_opt (rx_chr CHR ''/''), rx_chr CHR ''>''])
                   (\<lambda>_. nl) text;
          text = replaceAll (rx_element ''li'') (\<lambda>c. js ''- '' @ c 1 @ nl) text;
          text = replaceAll (rx_openOrClose ''ul'') (\<lambda>_. nl) text;
          text = replaceAll (rx_openOrClose ''ol'') (\<lambda>_. nl) text;
          text = replaceAll (rx_element ''strong'') (\<lambda>c. js ''**'' @ c 1 @ js ''**'') text;
          text = replaceAll (rx_element ''b'') (\<lambda>c. js ''**'' @ c 1 @ js ''**'') text;
          text = replaceAll (rx_element ''em'') (\<lambda>c. js ''*'' @ c 1 @ js ''*'') text;
          text = replaceAll (rx_element ''a'') (\<lambda>c. c 1) text;
          text =
            (if includeImages then
               (let text =
                      replaceAll
                        (rx_seqs [rx_litI ''<img'', Star (rx_not CHR ''>''), rx_litI ''src='', rx_chr (CHR 0x22),
                               Grp 1 (Star (rx_not (CHR 0x22))), rx_chr (CHR 0x22),
                               Star (rx_not CHR ''>''), rx_litI ''alt='', rx_chr (CHR 0x22),
                               Grp 2 (Star (rx_not (CHR 0x22))), rx_chr (CHR 0x22),
                               Star (rx_not CHR ''>''), rx_opt (rx_chr CHR ''/''), rx_chr CHR ''>''])
                        (\<lambda>c. js ''!['' @ c 2 @ js '']('' @ c 1 @ js '')'') text
                in replaceAll
                     (rx_seqs [rx_litI ''<img'', Star (rx_not CHR ''>''), rx_litI ''src='', rx_chr (CHR 0x22),
                            Grp 1 (Star (rx_not (CHR 0x22))), rx_chr (CHR 0x22),
                            Star (rx_not CHR ''>''), rx_opt (rx_chr CHR ''/''), rx_chr CHR ''>''])
                     (\<lambda>c. js ''![]('' @ c 1 @ js '')'') text)
             else
               replaceAll
                 (rx_seqs [rx_litI ''<img'', Star (rx_not CHR ''>''), rx_opt (rx_chr CHR ''/''), rx_chr CHR ''>''])
                 (\<lambda>_. []) text);
          text = replaceAll (rx_seqs [rx_chr CHR ''<'', rx_plus (rx_not CHR ''>''), rx_chr CHR ''>''])
                   (\<lambda>_. []) text;
          text = decodeHtmlEntities text;
          text = replaceAll (rx_seqs [Ch (\<lambda>x. x = 10), Ch (\<lambda>x. x = 10), Ch (\<lambda>x. x = 10),
                                   Star (Ch (\<lambda>x. x = 10))])
                   (\<lambda>_. nl @ nl) text;
          text = replaceAll (rx_plus (Ch (\<lambda>x. x = 32 \<or> x = 9))) (\<lambda>_. js '' '') text
      in trim text)"

text \<open>
  \<open>countWords\<close>: the Hangul syllables (U+AC00 to U+D7A3), one each, plus the maximal
  runs of ASCII letters.
\<close>

definition countWords :: "jsstring \<Rightarrow> nat" where
  "countWords text =
     (let korean = matchCount (Ch (\<lambda>x. 44032 \<le> x \<and> x \<le> 55203)) text;
          english = matchCount (rx_plus (Ch (\<lambda>x. isLowerAscii x \<or> isUpperAscii x))) text
      in korean + english)"

text \<open>A code unit that is no markup, no entity and no white space.\<close>

definition plainUnit :: "nat \<Rightarrow> bool" where
  "plainUnit x = (x \<noteq> 60 \<and> x \<noteq> 38 \<and> \<not> isWhiteSpace x)"

section \<open>What the crawler takes from its host\<close>

text \<open>
  \<open>new URL(s)\<close>, \<open>new URL(href, base).href\<close> and \<open>toLowerCase\<close> are functions of the
  platform.  \<open>parseUrl\<close> is \<open>None\<close> where the constructor throws.
\<close>

record URL =
  protocol :: jsstring
  host :: jsstring
  hostname :: jsstring
  pathname :: jsstring

record platform =
  parseUrl :: "jsstring \<Rightarrow> URL option"
  resolveUrl :: "jsstring \<Rightarrow> jsstring \<Rightarrow> jsstring option"
  toLowerCase :: "jsstring \<Rightarrow> jsstring"

text \<open>
  The answer to one request: \<open>response.ok\<close>, the status line, the content-type header,
  the body as \<open>response.text()\<close> yields it (\<open>Inl\<close> the message when reading fails) and
  \<open>response.url\<close>, the address reached after redirects.
\<close>

record Response =
  ok :: bool
  status :: nat
  statusText :: jsstring
  contentType :: "jsstring option"
  bodyText :: "jsstring + jsstring"
  responseUrl :: jsstring

text \<open>
  What the DOM and the content extractor give for a body: the \<open>href\<close> and the text of
  every \<open>a[href]\<close> element in document order, and the extractor's result (\<open>None\<close> when
  it returns nothing; an empty field stands for a missing one).
\<close>

record DefuddleResult =
  d_content :: jsstring
  d_title :: jsstring
  d_published :: jsstring
  d_author :: jsstring
  d_site :: jsstring

record Document =
  anchors :: "(jsstring \<times> jsstring) list"
  defuddle :: "DefuddleResult option"

text \<open>
  The network answers a request for an address with given headers and timeout, and
  changes while it does: \<open>'w\<close> is the state of the world.  \<open>Inl\<close> is the message of the
  exception (transport error, abort on timeout, malformed address).
\<close>

type_synonym headers = "jsstring \<rightharpoonup> jsstring"

record 'w network =
  fetch :: "'w \<Rightarrow> jsstring \<Rightarrow> headers \<Rightarrow> jsnumber option \<Rightarrow> (jsstring + Response) \<times> 'w"
  parseDocument :: "jsstring \<Rightarrow> jsstring \<Rightarrow> jsstring + Document"

section \<open>Data model\<close>

record ClipResult =
  clip_title :: jsstring
  clip_content :: jsstring
  clip_url :: jsstring
  clip_wordCount :: nat
  clip_publishedTime :: "jsstring option"
  clip_author :: "jsstring option"
  clip_siteName :: "jsstring option"

record ExtractedLink =
  link_url :: jsstring
  link_text :: jsstring
  link_depth :: int

text \<open>The messages of the errors, one constructor for each message the crawler builds.\<close>

datatype message =
    HttpError nat jsstring
  | NotHtml jsstring
  | ExtractionFailed
  | ContentTooShort nat
  | AllStrategiesFailed
  | UnknownError
  | Thrown jsstring

record CrawlFailure =
  fail_url :: jsstring
  fail_error :: message
  fail_attemptedStrategies :: "jsstring list"
  fail_depth :: int

record CrawlProgress =
  currentUrl :: jsstring
  processedCount :: nat
  queueLength :: nat
  successCount :: nat
  failedCount :: nat
  currentDepth :: int

type_synonym pattern = "jsstring \<Rightarrow> bool"

text \<open>
  The options as the caller gives them.  Every property is optional: it is absent, or
  present with the value \<open>undefined\<close>, or present with a value.  A pattern is the
  predicate \<open>pattern.test\<close> of a regular expression without the flags \<open>g\<close> and \<open>y\<close>, with
  which the answer would depend on earlier calls.  The observer acts on the world and
  returns.  The delays and the log only pass time or print, and are not part of the
  model.
\<close>

datatype 'a property = Absent | Undefined | Given 'a

record 'w RecursiveCrawlOptions =
  o_timeout :: "jsnumber property"
  o_includeImages :: "bool property"
  o_headers :: "headers property"
  o_maxDepth :: "jsnumber property"
  o_maxPages :: "jsnumber property"
  o_sameDomainOnly :: "bool property"
  o_excludePatterns :: "pattern list property"
  o_includePatterns :: "pattern list property"
  o_delayBetweenRequests :: "jsnumber property"
  o_useFallback :: "bool property"
  o_onProgress :: "('w \<Rightarrow> CrawlProgress \<Rightarrow> 'w) property"

text \<open>
  The configuration \<open>{ ...DEFAULTS, ...options }\<close>.  A property of the options that is
  present takes the place of the default, also when its value is \<open>undefined\<close>; a
  property without a default that is absent reads as \<open>undefined\<close>.  \<open>None\<close> is
  \<open>undefined\<close>.
\<close>

record 'w CrawlConfig =
  maxDepth :: "jsnumber option"
  maxPages :: "jsnumber option"
  sameDomainOnly :: "bool option"
  delayBetweenRequests :: "jsnumber option"
  timeout :: "jsnumber option"
  useFallback :: "bool option"
  includeImages :: "bool option"
  headers :: "headers option"
  excludePatterns :: "pattern list option"
  includePatterns :: "pattern list option"
  onProgress :: "('w \<Rightarrow> CrawlProgress \<Rightarrow> 'w) option"

definition orDefault :: "'a option \<Rightarrow> 'a \<Rightarrow> 'a" where
  "orDefault v d = (case v of None \<Rightarrow> d | Some x \<Rightarrow> x)"

definition spread :: "'a \<Rightarrow> 'a property \<Rightarrow> 'a option" where
  "spread d p = (case p of Absent \<Rightarrow> Some d | Undefined \<Rightarrow> None | Given v \<Rightarrow> Some v)"

definition propertyValue :: "'a property \<Rightarrow> 'a option" where
  "propertyValue p = (case p of Absent \<Rightarrow> None | Undefined \<Rightarrow> None | Given v \<Rightarrow> Some v)"

definition mkConfig :: "'w RecursiveCrawlOptions \<Rightarrow> 'w CrawlConfig" where
  "mkConfig options =
     \<lparr> maxDepth = spread (Finite 2) (o_maxDepth options),
       maxPages = spread (Finite 50) (o_maxPages options),
       sameDomainOnly = spread True (o_sameDomainOnly options),
       delayBetweenRequests = spread (Finite 1000) (o_delayBetweenRequests options),
       timeout = spread (Finite 15000) (o_timeout options),
       useFallback = spread True (o_useFallback options),
       includeImages = propertyValue (o_includeImages options),
       headers = propertyValue (o_headers options),
       excludePatterns = propertyValue (o_excludePatterns options),
       includePatterns = propertyValue (o_includePatterns options),
       onProgress = propertyValue (o_onProgress options) \<rparr>"

definition USER_AGENTS :: "jsstring list" where
  "USER_AGENTS =
     [js ''Mozilla/5.0 (Windows NT 10.0; Win64; x64) AppleWebKit/537.36 (KHTML, like Gecko) Chrome/120.0.0.0 Safari/537.36'',
      js ''Mozilla/5.0 (Macintosh; Intel Mac OS X 10_15_7) AppleWebKit/537.36 (KHTML, like Gecko) Chrome/120.0.0.0 Safari/537.36'',
      js ''Mozilla/5.0 (Windows NT 10.0; Win64; x64; rv:121.0) Gecko/20100101 Firefox/121.0'',
      js ''Mozilla/5.0 (Linux; Android 10; SM-G981B) AppleWebKit/537.36 (KHTML, like Gecko) Chrome/120.0.0.0 Mobile Safari/537.36'',
      js ''Mozilla/5.0 (compatible; Googlebot/2.1; +http://www.google.com/bot.html)'']"

definition getHeaders :: "jsstring \<Rightarrow> headers" where
  "getHeaders userAgent =
     [js ''User-Agent'' \<mapsto> userAgent,
      js ''Accept'' \<mapsto> js ''text/html,application/xhtml+xml,application/xml;q=0.9,*/*;q=0.8'',
      js ''Accept-Language'' \<mapsto> js ''ko-KR,ko;q=0.9,en-US;q=0.8,en;q=0.7'',
      js ''Accept-Encoding'' \<mapsto> js ''gzip, deflate, br'',
      js ''Connection'' \<mapsto> js ''keep-alive'',
      js ''Upgrade-Insecure-Requests'' \<mapsto> js ''1'']"

section \<open>Addresses\<close>

definition fileExtensions :: "string list" where
  "fileExtensions =
     [''.pdf'', ''.doc'', ''.docx'', ''.xls'', ''.xlsx'', ''.ppt'', ''.pptx'',
      ''.zip'', ''.rar'', ''.tar'', ''.gz'',
      ''.jpg'', ''.jpeg'', ''.png'', ''.gif'', ''.webp'', ''.svg'',
      ''.mp3'', ''.mp4'', ''.avi'', ''.mov'',
      ''.css'', ''.js'', ''.json'', ''.xml'']"

definition isFileUrl :: "platform \<Rightarrow> jsstring \<Rightarrow> bool" where
  "isFileUrl P url =
     (let lowercaseUrl = toLowerCase P url
      in list_ex (\<lambda>ext. endsWith lowercaseUrl (js ext)) fileExtensions)"

definition normalizeUrl :: "platform \<Rightarrow> jsstring \<Rightarrow> jsstring" where
  "normalizeUrl P url =
     (case parseUrl P url of
        None \<Rightarrow> toLowerCase P url
      | Some parsed \<Rightarrow>
          let normalized = protocol parsed @ js ''//'' @ host parsed @ pathname parsed;
              normalized = (if endsWith normalized (js ''/'') \<and> length normalized > 1
                            then butlast normalized else normalized)
          in toLowerCase P normalized)"

definition extractDomain :: "platform \<Rightarrow> jsstring \<Rightarrow> jsstring" where
  "extractDomain P url =
     (case parseUrl P url of
        None \<Rightarrow> []
      | Some parsed \<Rightarrow> toLowerCase P (hostname parsed))"

definition shouldCrawl :: "platform \<Rightarrow> jsstring \<Rightarrow> jsstring \<Rightarrow> 'w CrawlConfig \<Rightarrow> bool" where
  "shouldCrawl P url startDomain config =
     (if sameDomainOnly config \<noteq> Some False \<and> extractDomain P url \<noteq> startDomain then False
      else if list_ex (\<lambda>pattern. pattern url) (orDefault (excludePatterns config) []) then False
      else if orDefault (includePatterns config) [] \<noteq> []
              \<and> \<not> list_ex (\<lambda>pattern. pattern url) (orDefault (includePatterns config) [])
           then False
      else True)"

section \<open>Links of a page\<close>

fun extractLinks_loop ::
  "platform \<Rightarrow> jsstring \<Rightarrow> (jsstring \<times> jsstring) list \<Rightarrow> jsstring list \<Rightarrow> ExtractedLink list
     \<Rightarrow> ExtractedLink list" where
  "extractLinks_loop P baseUrl [] seen links = links"
| "extractLinks_loop P baseUrl ((href, textContent) # rest) seen links =
     (if href = [] then extractLinks_loop P baseUrl rest seen links
      else case resolveUrl P href baseUrl of
        None \<Rightarrow> extractLinks_loop P baseUrl rest seen links
      | Some absoluteUrl \<Rightarrow>
          if absoluteUrl \<in> set seen then extractLinks_loop P baseUrl rest seen links
          else let seen = seen @ [absoluteUrl] in
            if \<not> startsWith absoluteUrl (js ''http://'') \<and> \<not> startsWith absoluteUrl (js ''https://'')
            then extractLinks_loop P baseUrl rest seen links
            else if isFileUrl P absoluteUrl then extractLinks_loop P baseUrl rest seen links
            else let urlWithoutHash = splitFirst (of_char CHR ''#'') absoluteUrl;
                     cleanUrl = splitFirst (of_char CHR ''?'') urlWithoutHash
                 in extractLinks_loop P baseUrl rest seen
                      (links @ [\<lparr> link_url = cleanUrl,
                                  link_text = take 100 (trim textContent),
                                  link_depth = 0 \<rparr>]))"

definition extractLinks :: "platform \<Rightarrow> Document \<Rightarrow> jsstring \<Rightarrow> ExtractedLink list" where
  "extractLinks P document baseUrl = extractLinks_loop P baseUrl (anchors document) [] []"

section \<open>One attempt\<close>

definition nonEmpty :: "jsstring \<Rightarrow> jsstring option" where
  "nonEmpty s = (if s = [] then None else Some s)"

definition attemptCrawl ::
  "platform \<Rightarrow> 'w network \<Rightarrow> jsstring \<Rightarrow> jsnumber option \<Rightarrow> headers \<Rightarrow> bool option \<Rightarrow> 'w
     \<Rightarrow> (message + ClipResult \<times> ExtractedLink list) \<times> 'w" where
  "attemptCrawl P N url timeout_ms hdrs includeImgs w =
     (case fetch N w url hdrs timeout_ms of
        (Inl msg, w') \<Rightarrow> (Inl (Thrown msg), w')
      | (Inr response, w') \<Rightarrow>
          if \<not> ok response then (Inl (HttpError (status response) (statusText response)), w')
          else let ctype = orDefault (contentType response) [] in
            if \<not> includesStr ctype (js ''text/html'') \<and> \<not> includesStr ctype (js ''application/xhtml'')
            then (Inl (NotHtml ctype), w')
            else (case bodyText response of
              Inl msg \<Rightarrow> (Inl (Thrown msg), w')
            | Inr html \<Rightarrow>
                (case parseDocument N html url of
                   Inl msg \<Rightarrow> (Inl (Thrown msg), w')
                 | Inr document \<Rightarrow>
                     (case defuddle document of
                        None \<Rightarrow> (Inl ExtractionFailed, w')
                      | Some result \<Rightarrow>
                          if d_content result = [] then (Inl ExtractionFailed, w')
                          else let markdown = htmlToMarkdown (d_content result)
                                                (orDefault includeImgs False) in
                            if length markdown < 100
                            then (Inl (ContentTooShort (length markdown)), w')
                            else let links = extractLinks P document url;
                                     clip = \<lparr> clip_title = (if d_title result = [] then js ''Untitled''
                                                            else d_title result),
                                              clip_content = markdown,
                                              clip_url = url,
                                              clip_wordCount = countWords markdown,
                                              clip_publishedTime = nonEmpty (d_published result),
                                              clip_author = nonEmpty (d_author result),
                                              clip_siteName = nonEmpty (d_site result) \<rparr>
                                 in (Inr (clip, links), w')))))"

section \<open>Fallback strategies\<close>

record CrawlAttemptResult =
  res_success :: bool
  res_data :: "ClipResult option"
  res_extractedLinks :: "ExtractedLink list option"
  res_error :: "message option"
  res_attemptedStrategies :: "jsstring list"

record strategy =
  strategy_name :: jsstring
  strategy_headers :: headers

definition strategies :: "strategy list" where
  "strategies =
     [\<lparr> strategy_name = js ''default'', strategy_headers = getHeaders (USER_AGENTS ! 0) \<rparr>,
      \<lparr> strategy_name = js ''chrome-mac'', strategy_headers = getHeaders (USER_AGENTS ! 1) \<rparr>,
      \<lparr> strategy_name = js ''firefox'', strategy_headers = getHeaders (USER_AGENTS ! 2) \<rparr>,
      \<lparr> strategy_name = js ''mobile'', strategy_headers = getHeaders (USER_AGENTS ! 3) \<rparr>,
      \<lparr> strategy_name = js ''googlebot'', strategy_headers = getHeaders (USER_AGENTS ! 4) \<rparr>]"

text \<open>
  The loop over \<open>strategiesToTry\<close>.  An attempt that throws, whatever threw, is caught:
  after the last strategy the failure is returned, otherwise the next strategy is
  tried.  The first equation is the \<open>return\<close> behind the loop.
\<close>

fun crawlWithFallback_loop ::
  "platform \<Rightarrow> 'w network \<Rightarrow> jsstring \<Rightarrow> 'w CrawlConfig \<Rightarrow> strategy list \<Rightarrow> jsstring list \<Rightarrow> 'w
     \<Rightarrow> CrawlAttemptResult \<times> 'w" where
  "crawlWithFallback_loop P N url config [] attemptedStrategies w =
     (\<lparr> res_success = False, res_data = None, res_extractedLinks = None,
        res_error = Some AllStrategiesFailed,
        res_attemptedStrategies = attemptedStrategies \<rparr>, w)"
| "crawlWithFallback_loop P N url config (currentStrategy # rest) attemptedStrategies w =
     (let attemptedStrategies = attemptedStrategies @ [strategy_name currentStrategy]
      in case attemptCrawl P N url (timeout config)
                (strategy_headers currentStrategy ++ orDefault (headers config) Map.empty)
                (includeImages config) w of
           (Inr (clip, links), w') \<Rightarrow>
             (\<lparr> res_success = True, res_data = Some clip, res_extractedLinks = Some links,
                res_error = None, res_attemptedStrategies = attemptedStrategies \<rparr>, w')
         | (Inl msg, w') \<Rightarrow>
             if rest = []
             then (\<lparr> res_success = False, res_data = None, res_extractedLinks = None,
                      res_error = Some msg, res_attemptedStrategies = attemptedStrategies \<rparr>, w')
             else crawlWithFallback_loop P N url config rest attemptedStrategies w')"

definition strategiesToTry :: "'w CrawlConfig \<Rightarrow> strategy list" where
  "strategiesToTry config = (if useFallback config = Some True then strategies else [strategies ! 0])"

definition crawlWithFallback ::
  "platform \<Rightarrow> 'w network \<Rightarrow> jsstring \<Rightarrow> 'w CrawlConfig \<Rightarrow> 'w \<Rightarrow> CrawlAttemptResult \<times> 'w" where
  "crawlWithFallback P N url config w =
     crawlWithFallback_loop P N url config (strategiesToTry config) [] w"

section \<open>The crawl\<close>

text \<open>
  The state of one run.  The visited set keeps the order of insertion, which is the
  order of \<open>Array.from(visited)\<close>.
\<close>

record 'w CrawlRunState =
  visited :: "jsstring list"
  queue :: "(jsstring \<times> int) list"
  success :: "ClipResult list"
  failed :: "CrawlFailure list"
  world :: 'w

text \<open>\<open>result.error || '...'\<close>: a missing or empty message becomes the default one.\<close>

definition errorOrUnknown :: "message option \<Rightarrow> message" where
  "errorOrUnknown e =
     (case e of None \<Rightarrow> UnknownError | Some (Thrown []) \<Rightarrow> UnknownError | Some m \<Rightarrow> m)"

definition enqueueLinks ::
  "platform \<Rightarrow> jsstring list \<Rightarrow> int \<Rightarrow> ExtractedLink list \<Rightarrow> (jsstring \<times> int) list
     \<Rightarrow> (jsstring \<times> int) list" where
  "enqueueLinks P vis depth links q =
     foldl (\<lambda>q link. let normalizedLink = normalizeUrl P (link_url link)
                      in if normalizedLink \<notin> set vis then q @ [(normalizedLink, depth + 1)] else q)
       q links"

definition loopCondition :: "'w CrawlConfig \<Rightarrow> 'w CrawlRunState \<Rightarrow> bool" where
  "loopCondition config s =
     (length (queue s) > 0
      \<and> lessNumber (int (length (success s)) + int (length (failed s))) (toNumber (maxPages config)))"

text \<open>
  The body of the \<open>while\<close> loop, entered with a queue that is not empty, in three
  parts: the progress callback, the bookkeeping behind a crawl, and the step itself.
\<close>

definition reportProgress ::
  "'w CrawlConfig \<Rightarrow> jsstring \<Rightarrow> int \<Rightarrow> 'w CrawlRunState \<Rightarrow> 'w" where
  "reportProgress config url depth s =
     (case onProgress config of
        None \<Rightarrow> world s
      | Some observer \<Rightarrow>
          observer (world s)
            \<lparr> currentUrl = url,
              processedCount = length (success s) + length (failed s),
              queueLength = length (queue s),
              successCount = length (success s),
              failedCount = length (failed s),
              currentDepth = depth \<rparr>)"

definition recordResult ::
  "platform \<Rightarrow> 'w CrawlConfig \<Rightarrow> jsstring \<Rightarrow> int \<Rightarrow> CrawlAttemptResult \<Rightarrow> 'w CrawlRunState
     \<Rightarrow> 'w CrawlRunState" where
  "recordResult P config url depth result s =
     (case (res_success result, res_data result) of
        (True, Some data) \<Rightarrow>
          let s = s\<lparr> success := success s @ [data] \<rparr>
          in if lessNumber depth (toNumber (maxDepth config))
             then s\<lparr> queue := enqueueLinks P (visited s) depth
                                  (orDefault (res_extractedLinks result) []) (queue s) \<rparr>
             else s
      | _ \<Rightarrow>
          s\<lparr> failed := failed s @
                [\<lparr> fail_url = url,
                   fail_error = errorOrUnknown (res_error result),
                   fail_attemptedStrategies = res_attemptedStrategies result,
                   fail_depth = depth \<rparr>] \<rparr>)"

definition crawlStep ::
  "platform \<Rightarrow> 'w network \<Rightarrow> 'w CrawlConfig \<Rightarrow> jsstring \<Rightarrow> 'w CrawlRunState \<Rightarrow> 'w CrawlRunState" where
  "crawlStep P N config startDomain s =
     (case queue s of
        [] \<Rightarrow> s
      | (url, depth) # rest \<Rightarrow>
          let s = s\<lparr> queue := rest \<rparr> in
          if url \<in> set (visited s) \<or> greaterNumber depth (toNumber (maxDepth config)) then s
          else if \<not> shouldCrawl P url startDomain config then s
          else
            let s = s\<lparr> visited := visited s @ [url] \<rparr>;
                w = reportProgress config url depth s;
                (result, w) = crawlWithFallback P N url config w
            in recordResult P config url depth result (s\<lparr> world := w \<rparr>))"

text \<open>
  The \<open>while\<close> loop.  With a budget and a depth limit that are both infinite it need
  not end: \<open>None\<close> is the run that does not return.
\<close>

partial_function (option) crawlLoop ::
  "platform \<Rightarrow> 'w network \<Rightarrow> 'w CrawlConfig \<Rightarrow> jsstring \<Rightarrow> 'w CrawlRunState
     \<Rightarrow> 'w CrawlRunState option" where
  "crawlLoop P N config startDomain s =
     (if loopCondition config s
      then crawlLoop P N config startDomain (crawlStep P N config startDomain s)
      else Some s)"

record RecursiveCrawlResult =
  out_success :: "ClipResult list"
  out_failed :: "CrawlFailure list"
  out_visitedUrls :: "jsstring list"

definition initialState :: "platform \<Rightarrow> jsstring \<Rightarrow> 'w \<Rightarrow> 'w CrawlRunState" where
  "initialState P startUrl w =
     \<lparr> visited = [], queue = [(normalizeUrl P startUrl, 0)], success = [], failed = [],
       world = w \<rparr>"

text \<open>
  \<open>crawlRecursively\<close>, without the elapsed time that it reports: the result and the
  world it leaves, when it returns.
\<close>

definition crawlRecursively ::
  "platform \<Rightarrow> 'w network \<Rightarrow> jsstring \<Rightarrow> 'w RecursiveCrawlOptions \<Rightarrow> 'w
     \<Rightarrow> (RecursiveCrawlResult \<times> 'w) option" where
  "crawlRecursively P N startUrl options w =
     (let config = mkConfig options;
          startDomain = extractDomain P startUrl
      in case crawlLoop P N config startDomain (initialState P startUrl w) of
           None \<Rightarrow> None
         | Some s \<Rightarrow>
             Some (\<lparr> out_success = success s, out_failed = failed s,
                     out_visitedUrls = visited s \<rparr>, world s))"

text \<open>
  The states a run passes through at the head of its loop: the initial one, and the
  one behind every iteration the loop condition admits.
\<close>

inductive crawlReach ::
  "platform \<Rightarrow> 'w network \<Rightarrow> 'w CrawlConfig \<Rightarrow> jsstring \<Rightarrow> 'w CrawlRunState \<Rightarrow> 'w CrawlRunState
     \<Rightarrow> bool"
  for P N config startDomain s0 where
    start: "crawlReach P N config startDomain s0 s0"
  | step: "crawlReach P N config startDomain s0 s \<Longrightarrow> loopCondition config s
           \<Longrightarrow> crawlReach P N config startDomain s0 (crawlStep P N config startDomain s)"

definition running ::
  "platform \<Rightarrow> 'w network \<Rightarrow> jsstring \<Rightarrow> 'w RecursiveCrawlOptions \<Rightarrow> 'w \<Rightarrow> 'w CrawlRunState \<Rightarrow> bool" where
  "running P N startUrl options w s =
     crawlReach P N (mkConfig options) (extractDomain P startUrl) (initialState P startUrl w) s"

definition finalState ::
  "platform \<Rightarrow> 'w network \<Rightarrow> jsstring \<Rightarrow> 'w RecursiveCrawlOptions \<Rightarrow> 'w
     \<Rightarrow> 'w CrawlRunState option" where
  "finalState P N startUrl options w =
     crawlLoop P N (mkConfig options) (extractDomain P startUrl) (initialState P startUrl w)"

text \<open>The addresses of the two output lists, successes first.\<close>

definition recordedUrls :: "'w CrawlRunState \<Rightarrow> jsstring list" where
  "recordedUrls s = map clip_url (success s) @ map fail_url (failed s)"

definition processed :: "'w CrawlRunState \<Rightarrow> int" where
  "processed s = int (length (success s)) + int (length (failed s))"

section \<open>A reference platform and a small site\<close>

text \<open>
  The statements about the crawler hold for every platform and every network.  To run
  the crawler on concrete input, \<open>refPlatform\<close> implements the platform on plain
  addresses: \<open>http\<close> or \<open>https\<close>, a host of letters, digits and dots whose last label
  is alphabetic, a path of letters, digits and \<open>/ - _ .\<close> without dot segments, and a
  query or fragment of letters, digits and \<open>= & - _\<close>.  On these the URL parser of the
  host leaves the components as they are, lowercasing scheme and host and giving the
  empty path as \<open>/\<close>.  Anything else is answered with \<open>None\<close>; in particular a string
  without a scheme, which the host rejects as well.  \<open>refToLowerCase\<close> is the case
  mapping of the code units below 256.
\<close>

definition lowerUnit :: "nat \<Rightarrow> nat" where
  "lowerUnit x = (if isUpperAscii x \<or> (192 \<le> x \<and> x \<le> 222 \<and> x \<noteq> 215) then x + 32 else x)"

definition refToLowerCase :: "jsstring \<Rightarrow> jsstring" where
  "refToLowerCase s = map lowerUnit s"

definition isAlnum :: "nat \<Rightarrow> bool" where
  "isAlnum x = (isLowerAscii x \<or> isUpperAscii x \<or> (48 \<le> x \<and> x \<le> 57))"

definition isHostUnit :: "nat \<Rightarrow> bool" where
  "isHostUnit x = (isAlnum x \<or> x = 46)"

definition isPathUnit :: "nat \<Rightarrow> bool" where
  "isPathUnit x = (isAlnum x \<or> x = 47 \<or> x = 45 \<or> x = 95 \<or> x = 46)"

definition isTailUnit :: "nat \<Rightarrow> bool" where
  "isTailUnit x = (isAlnum x \<or> x = 63 \<or> x = 35 \<or> x = 61 \<or> x = 38 \<or> x = 45 \<or> x = 95)"

definition refScheme :: "jsstring \<Rightarrow> (jsstring \<times> jsstring) option" where
  "refScheme s =
     (if refToLowerCase (take 7 s) = js ''http://'' then Some (js ''http:'', drop 7 s)
      else if refToLowerCase (take 8 s) = js ''https://'' then Some (js ''https:'', drop 8 s)
      else None)"

definition isDelimiter :: "nat \<Rightarrow> bool" where
  "isDelimiter x = (x = 47 \<or> x = 63 \<or> x = 35)"

definition refPath :: "jsstring \<Rightarrow> (jsstring \<times> jsstring) option" where
  "refPath s =
     (let path = takeWhile (\<lambda>x. x \<noteq> 63 \<and> x \<noteq> 35) s;
          tail = dropWhile (\<lambda>x. x \<noteq> 63 \<and> x \<noteq> 35) s
      in if list_all isPathUnit path \<and> \<not> includesStr path (js ''/.'') \<and> list_all isTailUnit tail
         then Some (if path = [] then js ''/'' else path, tail)
         else None)"

definition refSplit :: "jsstring \<Rightarrow> (URL \<times> jsstring) option" where
  "refSplit s =
     (case refScheme s of
        None \<Rightarrow> None
      | Some (proto, rest) \<Rightarrow>
          let authority = takeWhile (\<lambda>x. \<not> isDelimiter x) rest;
              lastLabel = takeWhile (\<lambda>x. x \<noteq> 46) (rev authority)
          in if authority = [] \<or> \<not> list_all isHostUnit authority
                \<or> lastLabel = [] \<or> \<not> list_all (\<lambda>x. isLowerAscii x \<or> isUpperAscii x) lastLabel
             then None
             else (case refPath (dropWhile (\<lambda>x. \<not> isDelimiter x) rest) of
                     None \<Rightarrow> None
                   | Some (path, tail) \<Rightarrow>
                       Some (\<lparr> protocol = proto, host = refToLowerCase authority,
                               hostname = refToLowerCase authority, pathname = path \<rparr>, tail)))"

definition refParseUrl :: "jsstring \<Rightarrow> URL option" where
  "refParseUrl s = map_option fst (refSplit s)"

definition refResolveUrl :: "jsstring \<Rightarrow> jsstring \<Rightarrow> jsstring option" where
  "refResolveUrl href base =
     (case refSplit href of
        Some (u, tail) \<Rightarrow> Some (protocol u @ js ''//'' @ host u @ pathname u @ tail)
      | None \<Rightarrow>
          if startsWith href (js ''/'') \<and> \<not> startsWith href (js ''//'')
          then (case (refSplit base, refPath href) of
                  (Some (b, _), Some (path, tail)) \<Rightarrow>
                    Some (protocol b @ js ''//'' @ host b @ path @ tail)
                | _ \<Rightarrow> None)
          else None)"

definition refPlatform :: platform where
  "refPlatform = \<lparr> parseUrl = refParseUrl, resolveUrl = refResolveUrl, toLowerCase = refToLowerCase \<rparr>"

text \<open>
  The site: \<open>https://a.test/x\<close> is a page of a hundred letters with ten links and is
  reached through a redirect; \<open>https://a.test/y\<close> is served, but the extractor finds no
  content in it; every other address answers 404, and a string that is
  no address makes the request throw.  The world counts the requests.
\<close>

definition demoContent :: jsstring where
  "demoContent = replicate 100 97"

definition demoAnchors :: "(jsstring \<times> jsstring) list" where
  "demoAnchors =
     [(js ''/y'', js ''Y''), (js ''https://b.test/z'', js ''Z''), (js ''/p2'', js ''2''),
      (js ''/p3'', js ''3''), (js ''/p4'', js ''4''), (js ''/p5'', js ''5''), (js ''/p6'', js ''6''),
      (js ''/p7'', js ''7''), (js ''/p8'', js ''8''), (js ''/p9'', js ''9'')]"

definition htmlResponse :: "jsstring \<Rightarrow> jsstring \<Rightarrow> Response" where
  "htmlResponse html final =
     \<lparr> ok = True, status = 200, statusText = js ''OK'', contentType = Some (js ''text/html; charset=utf-8''),
       bodyText = Inr html, responseUrl = final \<rparr>"

definition notFound :: "jsstring \<Rightarrow> Response" where
  "notFound final =
     \<lparr> ok = False, status = 404, statusText = js ''Not Found'', contentType = None,
       bodyText = Inr [], responseUrl = final \<rparr>"

definition demoNetwork :: "nat network" where
  "demoNetwork =
     \<lparr> fetch = (\<lambda>w url hdrs t.
         (if url = js ''https://a.test/x''
            then Inr (htmlResponse (js ''x'') (js ''https://a.test/landing''))
          else if url = js ''https://a.test/y'' then Inr (htmlResponse (js ''y'') url)
          else if refParseUrl url = None then Inl (js ''Invalid URL'')
          else Inr (notFound url), Suc w)),
       parseDocument = (\<lambda>html url.
         if html = js ''x''
         then Inr \<lparr> anchors = demoAnchors,
                    defuddle = Some \<lparr> d_content = demoContent, d_title = js ''X'', d_published = [],
                                      d_author = [], d_site = [] \<rparr> \<rparr>
         else Inr \<lparr> anchors = [], defuddle = None \<rparr>) \<rparr>"




definition defaultOptions :: "'w RecursiveCrawlOptions" where
  "defaultOptions =
     \<lparr> o_timeout = Absent, o_includeImages = Absent, o_headers = Absent, o_maxDepth = Absent,
       o_maxPages = Absent, o_sameDomainOnly = Absent, o_excludePatterns = Absent,
       o_includePatterns = Absent, o_delayBetweenRequests = Absent, o_useFallback = Absent,
       o_onProgress = Absent \<rparr>"

text \<open>
  What the crawl of the site yields: the record of the page, its links as extracted,
  the queue behind the first page, and the names of the strategies in the order of
  \<open>strategies\<close>.
\<close>

definition demoClip :: ClipResult where
  "demoClip =
     \<lparr> clip_title = js ''X'', clip_content = demoContent, clip_url = js ''https://a.test/x'',
       clip_wordCount = countWords demoContent, clip_publishedTime = None, clip_author = None, clip_siteName = None \<rparr>"

definition demoLinks :: "ExtractedLink list" where
  "demoLinks =
     map (\<lambda>(u, t). \<lparr> link_url = js u, link_text = js t, link_depth = 0 \<rparr>)
       [(''https://a.test/y'', ''Y''), (''https://b.test/z'', ''Z''), (''https://a.test/p2'', ''2''),
        (''https://a.test/p3'', ''3''), (''https://a.test/p4'', ''4''), (''https://a.test/p5'', ''5''),
        (''https://a.test/p6'', ''6''), (''https://a.test/p7'', ''7''), (''https://a.test/p8'', ''8''),
        (''https://a.test/p9'', ''9'')]"

definition demoStart :: jsstring where
  "demoStart = js ''https://a.test/x''"

definition demoQueue :: "(jsstring \<times> int) list" where
  "demoQueue = map (\<lambda>u. (js u, 1))
     [''https://a.test/y'', ''https://b.test/z'', ''https://a.test/p2'', ''https://a.test/p3'',
      ''https://a.test/p4'', ''https://a.test/p5'', ''https://a.test/p6'', ''https://a.test/p7'',
      ''https://a.test/p8'', ''https://a.test/p9'']"

definition strategyNames :: "jsstring list" where
  "strategyNames = [js ''default'', js ''chrome-mac'', js ''firefox'', js ''mobile'', js ''googlebot'']"

section \<open>Notions of the claims\<close>



text \<open>
  The fetch of an address succeeds and the extraction of its content fails: the answer
  is an HTML page whose body can be read and parsed, in which the extractor finds no
  content, or content that normalizes to fewer than 100 code units.  The messages of
  these two failures are the extraction errors.
\<close>

definition ctypeIsHtml :: "Response \<Rightarrow> bool" where
  "ctypeIsHtml response =
     (includesStr (orDefault (contentType response) []) (js ''text/html'')
      \<or> includesStr (orDefault (contentType response) []) (js ''application/xhtml''))"

definition fetchedButNotExtracted ::
  "'w network \<Rightarrow> jsstring \<Rightarrow> 'w CrawlConfig \<Rightarrow> headers \<Rightarrow> 'w \<Rightarrow> bool" where
  "fetchedButNotExtracted N url config hdrs w =
     (case fetch N w url hdrs (timeout config) of
        (Inl msg, w') \<Rightarrow> False
      | (Inr response, w') \<Rightarrow>
          ok response \<and> ctypeIsHtml response
          \<and> (case bodyText response of
                Inl msg \<Rightarrow> False
              | Inr html \<Rightarrow>
                  (case parseDocument N html url of
                     Inl msg \<Rightarrow> False
                   | Inr document \<Rightarrow>
                       (case defuddle document of
                          None \<Rightarrow> True
                        | Some result \<Rightarrow>
                            d_content result = []
                            \<or> length (htmlToMarkdown (d_content result)
                                        (orDefault (includeImages config) False)) < 100))))"

fun isExtractionError :: "message \<Rightarrow> bool" where
  "isExtractionError ExtractionFailed = True"
| "isExtractionError (ContentTooShort n) = (n < 100)"
| "isExtractionError m = False"

text \<open>The same network, reporting \<open>g response\<close> as the address after redirects.\<close>

definition withFinalUrls :: "(Response \<Rightarrow> jsstring) \<Rightarrow> 'w network \<Rightarrow> 'w network" where
  "withFinalUrls g N =
     N\<lparr> fetch := (\<lambda>w url hdrs t.
            case fetch N w url hdrs t of
              (Inl msg, w') \<Rightarrow> (Inl msg, w')
            | (Inr response, w') \<Rightarrow> (Inr (response\<lparr> responseUrl := g response \<rparr>), w')) \<rparr>"


text \<open>
  A budget that counts pages: an integer that is not negative, or infinity.
\<close>

fun isCount :: "jsnumber \<Rightarrow> bool" where
  "isCount (Finite r) = (0 \<le> r \<and> r = of_int \<lfloor>r\<rfloor>)"
| "isCount PosInfinity = True"
| "isCount NegInfinity = False"
| "isCount NaN = False"

text \<open>
  The fetch of an address succeeds and the extraction fails under every strategy of a
  list, each one tried with its own headers in the world the one before it left.
\<close>

fun extractionFails ::
  "'w network \<Rightarrow> jsstring \<Rightarrow> 'w CrawlConfig \<Rightarrow> strategy list \<Rightarrow> 'w \<Rightarrow> bool" where
  "extractionFails N url config [] w = True"
| "extractionFails N url config (currentStrategy # rest) w =
     (let hdrs = strategy_headers currentStrategy ++ orDefault (headers config) Map.empty
      in fetchedButNotExtracted N url config hdrs w
         \<and> extractionFails N url config rest (snd (fetch N w url hdrs (timeout config))))"

text \<open>
  The same network, keeping a log of the addresses that are requested from it.  The
  world of the logged network is the log together with the world of the network; the
  observer of the options acts on the world and leaves the log alone.  \<open>requests\<close> is
  the log of a state and \<open>unlogged\<close> the state without it.
\<close>

definition logged :: "'w network \<Rightarrow> (jsstring list \<times> 'w) network" where
  "logged N =
     \<lparr> fetch = (\<lambda>lw url hdrs t.
         case fetch N (snd lw) url hdrs t of (r, w') \<Rightarrow> (r, (fst lw @ [url], w'))),
       parseDocument = parseDocument N \<rparr>"

definition loggedObserver ::
  "('w \<Rightarrow> CrawlProgress \<Rightarrow> 'w) \<Rightarrow> jsstring list \<times> 'w \<Rightarrow> CrawlProgress \<Rightarrow> jsstring list \<times> 'w" where
  "loggedObserver observer lw p = (fst lw, observer (snd lw) p)"


definition loggedConfig :: "'w CrawlConfig \<Rightarrow> (jsstring list \<times> 'w) CrawlConfig" where
  "loggedConfig config =
     \<lparr> maxDepth = maxDepth config, maxPages = maxPages config,
       sameDomainOnly = sameDomainOnly config,
       delayBetweenRequests = delayBetweenRequests config, timeout = timeout config,
       useFallback = useFallback config, includeImages = includeImages config,
       headers = headers config, excludePatterns = excludePatterns config,
       includePatterns = includePatterns config,
       onProgress = map_option loggedObserver (onProgress config) \<rparr>"

definition requests :: "(jsstring list \<times> 'w) CrawlRunState \<Rightarrow> jsstring list" where
  "requests s = fst (world s)"

definition unlogged :: "(jsstring list \<times> 'w) CrawlRunState \<Rightarrow> 'w CrawlRunState" where
  "unlogged s =
     \<lparr> visited = visited s, queue = queue s, success = success s, failed = failed s,
       world = snd (world s) \<rparr>"



section \<open>Auxiliary facts\<close>

text \<open>
  A step that starts with an entry at the head of the queue either skips it, or records
  one page, or records one failure.
\<close>

lemma attemptCrawl_url:
  "attemptCrawl P N url t h i w = (Inr (clip, links), w') \<Longrightarrow> clip_url clip = url"
  by (auto simp: attemptCrawl_def Let_def split: prod.splits sum.splits option.splits if_splits)

lemma crawlWithFallback_loop_url:
  "crawlWithFallback_loop P N url c sts att w = (r, w') \<Longrightarrow>
     (res_success (r::CrawlAttemptResult) \<longrightarrow> (\<exists>clip. res_data r = Some clip \<and> clip_url clip = url))"
proof (induction sts arbitrary: att w)
  case Nil
  then show ?case by auto
next
  case (Cons st sts)
  then show ?case
    by (auto simp: Let_def split: prod.splits sum.splits if_splits dest: attemptCrawl_url)
qed

lemma crawlWithFallback_url:
  "crawlWithFallback P N url c w = (r, w') \<Longrightarrow> res_success (r::CrawlAttemptResult) \<Longrightarrow>
     \<exists>clip. res_data r = Some clip \<and> clip_url clip = url"
  unfolding crawlWithFallback_def by (rule crawlWithFallback_loop_url[rule_format])

lemma crawlStep_cases [consumes 1, case_names skip page failure]:
  assumes q: "queue s = (url, depth) # rest"
  obtains
    (skip) "url \<in> set (visited s) \<or> greaterNumber depth (toNumber (maxDepth c))
              \<or> \<not> shouldCrawl P url d c"
           "crawlStep P N c d s = s\<lparr>queue := rest\<rparr>"
  | (page) clip r where
      "url \<notin> set (visited s)" "\<not> greaterNumber depth (toNumber (maxDepth c))"
      "shouldCrawl P url d c"
      "visited (crawlStep P N c d s) = visited s @ [url]"
      "success (crawlStep P N c d s) = success s @ [clip]"
      "failed (crawlStep P N c d s) = failed s"
      "clip_url clip = url"
      "queue (crawlStep P N c d s) =
         (if lessNumber depth (toNumber (maxDepth c))
          then enqueueLinks P (visited s @ [url]) depth
                 (orDefault (res_extractedLinks (r::CrawlAttemptResult)) []) rest
          else rest)"
  | (failure) f where
      "url \<notin> set (visited s)" "\<not> greaterNumber depth (toNumber (maxDepth c))"
      "shouldCrawl P url d c"
      "visited (crawlStep P N c d s) = visited s @ [url]"
      "success (crawlStep P N c d s) = success s"
      "failed (crawlStep P N c d s) = failed s @ [f]"
      "fail_url (f::CrawlFailure) = url" "fail_depth f = depth"
      "queue (crawlStep P N c d s) = rest"
proof (cases "url \<in> set (visited s) \<or> greaterNumber depth (toNumber (maxDepth c))
                \<or> \<not> shouldCrawl P url d c")
  case True
  then have "crawlStep P N c d s = s\<lparr>queue := rest\<rparr>"
    using q by (auto simp: crawlStep_def Let_def)
  with True show ?thesis by (rule skip)
next
  case False
  define s1 where "s1 = s\<lparr>queue := rest, visited := visited s @ [url]\<rparr>"
  obtain r w' where rw: "crawlWithFallback P N url c (reportProgress c url depth s1) = (r, w')"
    by (cases "crawlWithFallback P N url c (reportProgress c url depth s1)")
  have step: "crawlStep P N c d s = recordResult P c url depth r (s1\<lparr>world := w'\<rparr>)"
    using False q rw by (simp add: crawlStep_def Let_def s1_def)
  show ?thesis
  proof (cases "res_success r")
    case True
    then obtain clip where clip: "res_data r = Some clip" "clip_url clip = url"
      using crawlWithFallback_url[OF rw] by blast
    show ?thesis
      by (rule page[where clip = clip and r = r])
         (use False True clip in \<open>auto simp: step recordResult_def Let_def s1_def\<close>)
  next
    case nosucc: False
    show ?thesis
      by (rule failure[where f = "\<lparr> fail_url = url, fail_error = errorOrUnknown (res_error r),
                             fail_attemptedStrategies = res_attemptedStrategies r, fail_depth = depth \<rparr>"])
         (use False nosucc in \<open>auto simp: step recordResult_def Let_def s1_def\<close>)
  qed
qed

text \<open>Text without markup, entities and white space is left as it is.\<close>

lemma replaceAll_no_match:
  assumes "\<And>x xs. x \<in> set s \<Longrightarrow> matchAt r (x # xs) = None" "matchAt r [] = None"
  shows "replaceAll r f s = s"
  using assms by (induction s) simp_all

lemmas rx_defs = rx_element_def rx_seqs_def rx_litI_def rx_lit_def rx_chr_def rx_not_def rx_any_def
  rx_chrI_def rx_plus_def rx_opt_def rx_openOrClose_def rx_digit_def isLowerAscii_def
  isUpperAscii_def matchAt_def noCaps_def

lemma element_no_match: "x \<noteq> 60 \<Longrightarrow> matchAt (rx_element tag) (x # xs) = None"
  "matchAt (rx_element tag) [] = None"
  by (simp_all add: rx_defs)

lemma openOrClose_no_match: "x \<noteq> 60 \<Longrightarrow> matchAt (rx_openOrClose tag) (x # xs) = None"
  "matchAt (rx_openOrClose tag) [] = None"
  by (simp_all add: rx_defs)

lemma replaceAll_element_plain:
  "\<forall>x\<in>set s. plainUnit x \<Longrightarrow> replaceAll (rx_element tag) f s = s"
  by (rule replaceAll_no_match) (auto simp: element_no_match plainUnit_def)

lemma replaceAll_openOrClose_plain:
  "\<forall>x\<in>set s. plainUnit x \<Longrightarrow> replaceAll (rx_openOrClose tag) f s = s"
  by (rule replaceAll_no_match) (auto simp: openOrClose_no_match plainUnit_def)

lemma not_plainUnit: "\<not> plainUnit 60" "\<not> plainUnit 38" "\<not> plainUnit 10" "\<not> plainUnit 32" "\<not> plainUnit 9"
  by (simp_all add: plainUnit_def isWhiteSpace_def)

lemma replaceAll_first_plain:
  assumes "\<forall>x\<in>set s. plainUnit x" "\<forall>x. p x \<longrightarrow> \<not> plainUnit x"
  shows "replaceAll (Seq (Ch p) r) f s = s"
  by (rule replaceAll_no_match) (use assms in \<open>auto simp: matchAt_def\<close>)

lemma replaceAll_first2_plain:
  assumes "\<forall>x\<in>set s. plainUnit x" "\<forall>x. p x \<longrightarrow> \<not> plainUnit x"
  shows "replaceAll (Seq (Seq (Ch p) r) r') f s = s"
  by (rule replaceAll_no_match) (use assms in \<open>auto simp: matchAt_def\<close>)

lemma decodeHtmlEntities_plain:
  assumes "\<forall>x\<in>set s. plainUnit x"
  shows "decodeHtmlEntities s = s"
proof -
  have a: "replaceAll (rx_lit (CHR ''&'' # e)) f s = s" for e f
    using assms by (simp add: rx_lit_def rx_chr_def replaceAll_first_plain not_plainUnit)
  have b: "replaceAll (rx_seqs (rx_lit (CHR ''&'' # e) # rs)) f s = s" for e f rs
    using assms by (simp add: rx_seqs_def rx_lit_def rx_chr_def replaceAll_first2_plain not_plainUnit)
  show ?thesis
    by (simp add: decodeHtmlEntities_def entities_def a b)
qed

lemma trim_plain:
  assumes "\<forall>x\<in>set s. plainUnit x"
  shows "trim s = s"
proof -
  have "dropWhile isWhiteSpace t = t" if "\<forall>x\<in>set t. plainUnit x" for t
    using that by (cases t) (auto simp: plainUnit_def)
  from this[of s] this[of "rev s"] assms show ?thesis by (simp add: trim_def)
qed

lemma htmlToMarkdown_plain:
  assumes "\<forall>x\<in>set s. plainUnit x"
  shows "htmlToMarkdown s b = s"
proof -
  have e: "replaceAll (rx_element tag) f s = s" for tag f
    using assms by (rule replaceAll_element_plain)
  have oc: "replaceAll (rx_openOrClose tag) f s = s" for tag f
    using assms by (rule replaceAll_openOrClose_plain)
  have lt: "replaceAll (rx_seqs (rx_litI (CHR ''<'' # t) # rs)) f s = s" for t rs f
    using assms
    by (simp add: rx_seqs_def rx_litI_def rx_chrI_def isLowerAscii_def isUpperAscii_def
          replaceAll_first2_plain not_plainUnit)
  have tag: "replaceAll (rx_seqs (rx_chr CHR ''<'' # rs)) f s = s" for rs f
    using assms by (simp add: rx_seqs_def rx_chr_def replaceAll_first_plain not_plainUnit)
  have nl3: "replaceAll (rx_seqs (Ch (\<lambda>x. x = 10) # rs)) f s = s" for rs f
    using assms by (simp add: rx_seqs_def replaceAll_first_plain not_plainUnit)
  have sp: "replaceAll (rx_plus (Ch (\<lambda>x. x = 32 \<or> x = 9))) f s = s" for f
    using assms by (simp add: rx_plus_def replaceAll_first_plain not_plainUnit)
  show ?thesis
    by (simp add: htmlToMarkdown_def e oc lt tag nl3 sp decodeHtmlEntities_plain[OF assms]
          trim_plain[OF assms])
qed

text \<open>
  When the loop returns, it returns a state that the run reaches and in which its
  condition fails.
\<close>

lemma crawlLoop_reach_all:
  "crawlLoop P N c d s = Some s' \<Longrightarrow>
     \<forall>s0. crawlReach P N c d s0 s \<longrightarrow> crawlReach P N c d s0 s' \<and> \<not> loopCondition c s'"
  apply (drule crawlLoop.raw_induct[rotated 1, where Pa =
         "\<lambda>((((P, N), c), d), s) s'. \<forall>s0. crawlReach P N c d s0 s
             \<longrightarrow> crawlReach P N c d s0 s' \<and> \<not> loopCondition c s'"])
   apply (clarsimp split: if_splits)
    apply (blast intro: crawlReach.step)
   apply simp
  done

lemma crawlLoop_reach:
  assumes "crawlLoop P N c d s = Some s'" and "crawlReach P N c d s0 s"
  shows "crawlReach P N c d s0 s' \<and> \<not> loopCondition c s'"
  using crawlLoop_reach_all[OF assms(1)] assms(2) by blast

lemma finalState_running:
  assumes "finalState P N startUrl options w = Some f"
  shows "running P N startUrl options w f" "\<not> loopCondition (mkConfig options) f"
  using crawlLoop_reach[OF assms[unfolded finalState_def] crawlReach.start]
  by (simp_all add: running_def)

lemma crawlRecursively_final:
  "crawlRecursively P N startUrl options w =
     map_option (\<lambda>s. (\<lparr> out_success = success s, out_failed = failed s,
                         out_visitedUrls = visited s \<rparr>, world s))
       (finalState P N startUrl options w)"
  by (simp add: crawlRecursively_def finalState_def Let_def split: option.splits)

text \<open>
  A step under the loop condition shortens the queue or lengthens one of the two
  lists.  So the loop returns whenever the budget is not infinite.
\<close>

lemma crawlStep_progress:
  assumes "loopCondition c s"
  shows "(processed (crawlStep P N c d s) = processed s
            \<and> length (queue (crawlStep P N c d s)) < length (queue s))
         \<or> processed (crawlStep P N c d s) = processed s + 1"
proof -
  from assms obtain url depth rest where q: "queue s = (url, depth) # rest"
    by (cases "queue s") (auto simp: loopCondition_def)
  from q show ?thesis
  proof (cases rule: crawlStep_cases[where P = P and N = N and c = c and d = d])
    case skip
    then show ?thesis using q by (simp add: processed_def)
  next
    case (page clip r)
    then show ?thesis by (simp add: processed_def)
  next
    case (failure f)
    then show ?thesis by (simp add: processed_def)
  qed
qed

lemma crawlLoop_returns_finite:
  assumes "toNumber (maxPages c) = Finite r"
  shows "\<exists>s'. crawlLoop P N c d s = Some s'"
proof (induction s rule: wf_induct_rule[OF wf_measures[of
         "[\<lambda>s. nat (\<lceil>r\<rceil> - processed s), \<lambda>s. length (queue s)]"]])
  case (1 s)
  show ?case
  proof (cases "loopCondition c s")
    case False
    then show ?thesis by (simp add: crawlLoop.simps[of P N c d s])
  next
    case True
    then have lt: "processed s < \<lceil>r\<rceil>"
      using assms by (simp add: loopCondition_def processed_def less_ceiling_iff)
    from crawlStep_progress[OF True, of P N d] lt
    have "(crawlStep P N c d s, s)
            \<in> measures [\<lambda>s. nat (\<lceil>r\<rceil> - processed s), \<lambda>s. length (queue s)]"
      by auto
    from 1[OF this] True show ?thesis by (simp add: crawlLoop.simps[of P N c d s])
  qed
qed

lemma crawlLoop_returns:
  assumes "toNumber (maxPages c) \<noteq> PosInfinity"
  shows "\<exists>s'. crawlLoop P N c d s = Some s'"
proof (cases "toNumber (maxPages c)")
  case (Finite r)
  then show ?thesis by (rule crawlLoop_returns_finite)
next
  case PosInfinity
  with assms show ?thesis by simp
next
  case NegInfinity
  then show ?thesis by (simp add: crawlLoop.simps[of P N c d s] loopCondition_def)
next
  case NaN
  then show ?thesis by (simp add: crawlLoop.simps[of P N c d s] loopCondition_def)
qed

text \<open>The two lists together stay within the budget rounded up.\<close>

lemma budget_invariant:
  assumes "crawlReach P N c d s0 s" and "toNumber (maxPages c) = Finite r"
    and "processed s0 \<le> \<lceil>r\<rceil>"
  shows "processed s \<le> \<lceil>r\<rceil>"
  using assms
proof (induction rule: crawlReach.induct)
  case start
  then show ?case by simp
next
  case (step s)
  from step.hyps(2) step.prems have lt: "processed s < \<lceil>r\<rceil>"
    by (simp add: loopCondition_def processed_def less_ceiling_iff)
  from crawlStep_progress[OF step.hyps(2), of P N d] lt show ?case by auto
qed

lemma visit_invariant:
  assumes "crawlReach P N c d s0 s"
    and "distinct (visited s0)" "set (recordedUrls s0) = set (visited s0)"
    and "length (recordedUrls s0) = length (visited s0)"
  shows "distinct (visited s) \<and> set (recordedUrls s) = set (visited s)
         \<and> length (recordedUrls s) = length (visited s)"
  using assms
proof (induction rule: crawlReach.induct)
  case start
  then show ?case by simp
next
  case (step s)
  then have ih: "distinct (visited s)" "set (recordedUrls s) = set (visited s)"
     "length (recordedUrls s) = length (visited s)" by simp_all
  from step.hyps(2) obtain url depth rest where q: "queue s = (url, depth) # rest"
    by (cases "queue s") (auto simp: loopCondition_def)
  from q show ?case
  proof (cases rule: crawlStep_cases[where P = P and N = N and c = c and d = d])
    case skip
    then show ?thesis using ih by (simp add: recordedUrls_def)
  next
    case (page clip r)
    then show ?thesis using ih by (auto simp add: recordedUrls_def)
  next
    case (failure f)
    then show ?thesis using ih by (auto simp add: recordedUrls_def)
  qed
qed

text \<open>The crawler on the small site, step by step.\<close>

lemma demoContent_plain: "htmlToMarkdown demoContent b = demoContent"
  by (rule htmlToMarkdown_plain) (simp add: demoContent_def plainUnit_def isWhiteSpace_def)

lemmas ref_defs = refPlatform_def refParseUrl_def refResolveUrl_def refSplit_def refPath_def
  refScheme_def refToLowerCase_def lowerUnit_def isHostUnit_def isPathUnit_def isTailUnit_def
  isAlnum_def isDelimiter_def isLowerAscii_def isUpperAscii_def

lemma demo_extractLinks:
  "extractLinks refPlatform \<lparr> anchors = demoAnchors, defuddle = d \<rparr> (js ''https://a.test/x'') = demoLinks"
  by (simp add: extractLinks_def demoAnchors_def demoLinks_def isFileUrl_def fileExtensions_def
        endsWith_def splitFirst_def trim_def isWhiteSpace_def js_def Let_def ref_defs)

lemma demo_attempt_x:
  "attemptCrawl refPlatform demoNetwork (js ''https://a.test/x'') t h i w = (Inr (demoClip, demoLinks), Suc w)"
  by (simp add: attemptCrawl_def demoNetwork_def htmlResponse_def orDefault_def demoContent_plain
        demo_extractLinks demoClip_def nonEmpty_def Let_def)
     (simp add: demoContent_def js_def)

lemma demo_attempt_y:
  "attemptCrawl refPlatform demoNetwork (js ''https://a.test/y'') t h i w = (Inl ExtractionFailed, Suc w)"
  by (simp add: attemptCrawl_def demoNetwork_def htmlResponse_def orDefault_def js_def)


lemma demo_pages_parse:
  "refParseUrl (js ''https://a.test/x'') \<noteq> None" "refParseUrl (js ''https://a.test/y'') \<noteq> None"
  by (simp_all add: js_def Let_def ref_defs)

lemma demo_attempt_invalid:
  assumes "refParseUrl url = None"
  shows "attemptCrawl refPlatform demoNetwork url t h i w = (Inl (Thrown (js ''Invalid URL'')), Suc w)"
proof -
  from assms demo_pages_parse have "url \<noteq> js ''https://a.test/x''" "url \<noteq> js ''https://a.test/y''"
    by auto
  with assms show ?thesis
    by (simp add: attemptCrawl_def demoNetwork_def)
qed

lemma demo_fallback_x:
  "crawlWithFallback refPlatform demoNetwork (js ''https://a.test/x'') c w =
     (\<lparr> res_success = True, res_data = Some demoClip, res_extractedLinks = Some demoLinks,
        res_error = None, res_attemptedStrategies = [js ''default''] \<rparr>, Suc w)"
  by (simp add: crawlWithFallback_def strategiesToTry_def strategies_def demo_attempt_x)

lemma demo_fallback_y:
  "useFallback c = Some True \<Longrightarrow>
   crawlWithFallback refPlatform demoNetwork (js ''https://a.test/y'') c w =
     (\<lparr> res_success = False, res_data = None, res_extractedLinks = None,
        res_error = Some ExtractionFailed, res_attemptedStrategies = strategyNames \<rparr>, w + 5)"
  by (simp add: crawlWithFallback_def strategiesToTry_def strategies_def demo_attempt_y
        strategyNames_def)

lemma demo_normalize_links:
  "enqueueLinks refPlatform [js ''https://a.test/x''] 0 demoLinks [] = demoQueue"
  by (simp add: enqueueLinks_def demoLinks_def demoQueue_def normalizeUrl_def endsWith_def js_def
        Let_def ref_defs)

lemma demo_normalize_start: "normalizeUrl refPlatform demoStart = js ''https://a.test/x''"
  by (simp add: demoStart_def normalizeUrl_def endsWith_def js_def Let_def ref_defs)

lemma demo_domain_start: "extractDomain refPlatform demoStart = js ''a.test''"
  by (simp add: demoStart_def extractDomain_def js_def Let_def ref_defs)

lemma demo_domain_x: "extractDomain refPlatform (js ''https://a.test/x'') = js ''a.test''"
  by (simp add: extractDomain_def js_def Let_def ref_defs)

lemma demo_domain_y: "extractDomain refPlatform (js ''https://a.test/y'') = js ''a.test''"
  by (simp add: extractDomain_def js_def Let_def ref_defs)

lemma demo_step1:
  assumes "maxDepth c = Some (Finite r)" "0 < r" "excludePatterns c = None"
    "includePatterns c = None" "onProgress c = None"
  shows "crawlStep refPlatform demoNetwork c (js ''a.test'')
           \<lparr> visited = [], queue = [(js ''https://a.test/x'', 0)], success = [], failed = [], world = w \<rparr>
         = \<lparr> visited = [js ''https://a.test/x''], queue = demoQueue, success = [demoClip],
             failed = [], world = Suc w \<rparr>"
  using assms
  by (simp add: crawlStep_def toNumber_def shouldCrawl_def demo_domain_x orDefault_def reportProgress_def
        recordResult_def demo_fallback_x demo_normalize_links)

lemma demo_step2:
  assumes "maxDepth c = Some (Finite r)" "1 \<le> r" "excludePatterns c = None"
    "includePatterns c = None" "onProgress c = None" "useFallback c = Some True"
  shows "crawlStep refPlatform demoNetwork c (js ''a.test'')
           \<lparr> visited = [js ''https://a.test/x''], queue = demoQueue, success = [demoClip],
             failed = [], world = w \<rparr>
         = \<lparr> visited = [js ''https://a.test/x'', js ''https://a.test/y''], queue = tl demoQueue,
             success = [demoClip],
             failed = [\<lparr> fail_url = js ''https://a.test/y'', fail_error = ExtractionFailed,
                          fail_attemptedStrategies = strategyNames, fail_depth = 1 \<rparr>],
             world = w + 5 \<rparr>"
proof -
  have q: "demoQueue = (js ''https://a.test/y'', 1) # tl demoQueue"
    by (simp add: demoQueue_def)
  have ne: "js ''https://a.test/y'' \<noteq> js ''https://a.test/x''"
    by (simp add: js_def)
  show ?thesis
    using assms
    by (subst crawlStep_def, subst q)
       (simp add: ne shouldCrawl_def demo_domain_y orDefault_def reportProgress_def
          recordResult_def demo_fallback_y errorOrUnknown_def toNumber_def)
qed

lemmas config_defs = mkConfig_def defaultOptions_def orDefault_def spread_def propertyValue_def
  toNumber_def

lemma demo_run1:
  "finalState refPlatform demoNetwork demoStart (defaultOptions\<lparr>o_maxPages := Given (Finite 1)\<rparr>) w =
     Some \<lparr> visited = [js ''https://a.test/x''], queue = demoQueue, success = [demoClip],
            failed = [], world = Suc w \<rparr>"
  by (simp add: finalState_def initialState_def demo_normalize_start demo_domain_start
        crawlLoop.simps loopCondition_def demo_step1[where r = 2] config_defs)

lemma demo_run2:
  "finalState refPlatform demoNetwork demoStart (defaultOptions\<lparr>o_maxPages := Given (Finite 2)\<rparr>) w =
     Some \<lparr> visited = [js ''https://a.test/x'', js ''https://a.test/y''], queue = tl demoQueue,
            success = [demoClip],
            failed = [\<lparr> fail_url = js ''https://a.test/y'', fail_error = ExtractionFailed,
                         fail_attemptedStrategies = strategyNames, fail_depth = 1 \<rparr>],
            world = w + 6 \<rparr>"
proof -
  have ne: "demoQueue \<noteq> []" by (simp add: demoQueue_def)
  show ?thesis
    by (simp add: finalState_def initialState_def demo_normalize_start demo_domain_start
        crawlLoop.simps loopCondition_def demo_step1[where r = 2] demo_step2[where r = 2]
        config_defs ne)
qed



text \<open>With depth 0 as the limit the run never leaves its first entry.\<close>

lemma demo_step1_depth0:
  assumes "maxDepth c = Some (Finite 0)" "excludePatterns c = None" "includePatterns c = None"
    "onProgress c = None"
  shows "crawlStep refPlatform demoNetwork c (js ''a.test'')
           \<lparr> visited = [], queue = [(js ''https://a.test/x'', 0)], success = [], failed = [], world = w \<rparr>
         = \<lparr> visited = [js ''https://a.test/x''], queue = [], success = [demoClip],
             failed = [], world = Suc w \<rparr>"
  using assms
  by (simp add: crawlStep_def shouldCrawl_def demo_domain_x orDefault_def reportProgress_def
        recordResult_def demo_fallback_x toNumber_def)

lemma demo_run_depth0:
  "finalState refPlatform demoNetwork demoStart (defaultOptions\<lparr>o_maxDepth := Given (Finite 0)\<rparr>) w =
     Some \<lparr> visited = [js ''https://a.test/x''], queue = [], success = [demoClip], failed = [],
            world = Suc w \<rparr>"
  by (simp add: finalState_def initialState_def demo_normalize_start demo_domain_start
        crawlLoop.simps loopCondition_def demo_step1_depth0 config_defs)



lemma crawlStep_failure:
  assumes q: "queue s = (url, depth) # rest" and adm: "url \<notin> set (visited s)"
    "\<not> greaterNumber depth (toNumber (maxDepth c))" "shouldCrawl P url d c"
    and r: "crawlWithFallback P N url c
              (reportProgress c url depth (s\<lparr>queue := rest, visited := visited s @ [url]\<rparr>)) = (r, w')"
    and ns: "\<not> res_success r"
  shows "crawlStep P N c d s =
           s\<lparr> queue := rest, visited := visited s @ [url], world := w',
              failed := failed s @ [\<lparr> fail_url = url, fail_error = errorOrUnknown (res_error r),
                                      fail_attemptedStrategies = res_attemptedStrategies r,
                                      fail_depth = depth \<rparr>] \<rparr>"
  using assms by (simp add: crawlStep_def Let_def recordResult_def)




lemma notExtracted_attempt:
  assumes "fetchedButNotExtracted N url c h w"
  shows "\<exists>m w'. attemptCrawl P N url (timeout c) h (includeImages c) w = (Inl m, w')
                 \<and> isExtractionError m"
  using assms
  by (auto simp: fetchedButNotExtracted_def attemptCrawl_def ctypeIsHtml_def Let_def
           split: prod.splits sum.splits option.splits)

lemma demo_y_notExtracted:
  "fetchedButNotExtracted demoNetwork (js ''https://a.test/y'') c h (w::nat)"
  by (simp add: fetchedButNotExtracted_def demoNetwork_def htmlResponse_def ctypeIsHtml_def
        orDefault_def js_def)

lemma demo_y_admitted:
  "shouldCrawl refPlatform (js ''https://a.test/y'') (js ''a.test'') (mkConfig defaultOptions)"
  by (simp add: shouldCrawl_def demo_domain_y config_defs)

lemma attemptCrawl_withFinalUrls:
  "attemptCrawl P (withFinalUrls g N) url t h i w = attemptCrawl P N url t h i w"
  by (simp add: attemptCrawl_def withFinalUrls_def Let_def split: prod.splits sum.splits)



lemma endsWith_slash_append: "endsWith (n @ js ''/'') (js ''/'')"
  by (simp add: endsWith_def js_def)


lemma demo_parse_x:
  "refParseUrl (js ''https://a.test/x'')
     = Some \<lparr> protocol = js ''https:'', host = js ''a.test'', hostname = js ''a.test'',
              pathname = js ''/x'' \<rparr>"
  by (simp add: js_def Let_def ref_defs)

lemma demo_nourl_domain: "extractDomain refPlatform (js ''not a url'') = []"
  by (simp add: extractDomain_def js_def ref_defs)

lemma demo_nourl_normalize: "normalizeUrl refPlatform (js ''Not A URL'') = js ''not a url''"
  by (simp add: normalizeUrl_def js_def ref_defs)

lemma demo_nourl_start_domain: "extractDomain refPlatform (js ''Not A URL'') = []"
  by (simp add: extractDomain_def js_def ref_defs)

lemma demo_nourl_parse: "refParseUrl (js ''not a url'') = None"
  by (simp add: js_def ref_defs)

lemma demo_fallback_nourl:
  "useFallback c = Some True \<Longrightarrow>
   crawlWithFallback refPlatform demoNetwork (js ''not a url'') c w =
     (\<lparr> res_success = False, res_data = None, res_extractedLinks = None,
        res_error = Some (Thrown (js ''Invalid URL'')), res_attemptedStrategies = strategyNames \<rparr>,
      w + 5)"
  by (simp add: crawlWithFallback_def strategiesToTry_def strategies_def
        demo_attempt_invalid[OF demo_nourl_parse] strategyNames_def)

lemma demo_run_nourl:
  "finalState refPlatform demoNetwork (js ''Not A URL'') defaultOptions w =
     Some \<lparr> visited = [js ''not a url''], queue = [], success = [],
            failed = [\<lparr> fail_url = js ''not a url'', fail_error = Thrown (js ''Invalid URL''),
                         fail_attemptedStrategies = strategyNames, fail_depth = 0 \<rparr>],
            world = w + 5 \<rparr>"
proof -
  have e: "errorOrUnknown (Some (Thrown (js ''Invalid URL''))) = Thrown (js ''Invalid URL'')"
    by (simp add: errorOrUnknown_def js_def)
  show ?thesis
    by (simp add: finalState_def initialState_def demo_nourl_normalize demo_nourl_start_domain
        crawlLoop.simps loopCondition_def crawlStep_def shouldCrawl_def demo_nourl_domain
        reportProgress_def recordResult_def demo_fallback_nourl e config_defs)
qed







text \<open>The small site under three budgets that count no pages.\<close>

lemma demo_run_half:
  "finalState refPlatform demoNetwork demoStart (defaultOptions\<lparr>o_maxPages := Given (Finite (1 / 2))\<rparr>) w =
     Some \<lparr> visited = [js ''https://a.test/x''], queue = demoQueue, success = [demoClip],
            failed = [], world = Suc w \<rparr>"
  by (simp add: finalState_def initialState_def demo_normalize_start demo_domain_start
        crawlLoop.simps loopCondition_def demo_step1[where r = 2] config_defs)

lemma demo_run_negative:
  "finalState refPlatform demoNetwork demoStart (defaultOptions\<lparr>o_maxPages := Given (Finite (- 1))\<rparr>) w =
     Some (initialState refPlatform demoStart w)"
  by (simp add: finalState_def crawlLoop.simps loopCondition_def config_defs)

lemma demo_run_undefined:
  "finalState refPlatform demoNetwork demoStart (defaultOptions\<lparr>o_maxPages := Undefined\<rparr>) w =
     Some (initialState refPlatform demoStart w)"
  by (simp add: finalState_def crawlLoop.simps loopCondition_def config_defs)









text \<open>When the extraction fails under every strategy, the failure is an extraction error.\<close>

lemma notExtracted_attempt_world:
  assumes "fetchedButNotExtracted N url c h w"
  shows "\<exists>m. attemptCrawl P N url (timeout c) h (includeImages c) w
                = (Inl m, snd (fetch N w url h (timeout c)))
              \<and> isExtractionError m"
  using assms
  by (auto simp: fetchedButNotExtracted_def attemptCrawl_def ctypeIsHtml_def Let_def
           split: prod.splits sum.splits option.splits)

lemma extractionFails_loop:
  assumes "extractionFails N url c sts w" "sts \<noteq> []"
  shows "\<exists>m w'. crawlWithFallback_loop P N url c sts att w =
           (\<lparr> res_success = False, res_data = None, res_extractedLinks = None, res_error = Some m,
              res_attemptedStrategies = att @ map strategy_name sts \<rparr>, w')
         \<and> isExtractionError m"
  using assms
proof (induction sts arbitrary: att w)
  case Nil
  then show ?case by simp
next
  case (Cons st sts)
  let ?h = "strategy_headers st ++ orDefault (headers c) Map.empty"
  let ?w1 = "snd (fetch N w url ?h (timeout c))"
  from Cons.prems(1) have f: "fetchedButNotExtracted N url c ?h w"
    and r: "extractionFails N url c sts ?w1"
    by (simp_all add: Let_def)
  from notExtracted_attempt_world[OF f, of P] obtain m where
    a: "attemptCrawl P N url (timeout c) ?h (includeImages c) w = (Inl m, ?w1)"
    and e: "isExtractionError m"
    by blast
  show ?case
  proof (cases "sts = []")
    case True
    then show ?thesis using a e by simp
  next
    case False
    from Cons.IH[OF r False, of "att @ [strategy_name st]"] a False show ?thesis by simp
  qed
qed

lemma demo_y_extractionFails:
  "extractionFails demoNetwork (js ''https://a.test/y'') c sts (w::nat)"
  by (induction sts arbitrary: w) (simp_all add: demo_y_notExtracted Let_def)


lemma unlogged_simps [simp]:
  "visited (unlogged s) = visited s" "queue (unlogged s) = queue s"
  "success (unlogged s) = success s" "failed (unlogged s) = failed s"
  "world (unlogged s) = snd (world s)"
  by (simp_all add: unlogged_def)

lemma loggedConfig_simps [simp]:
  "maxDepth (loggedConfig c) = maxDepth c" "maxPages (loggedConfig c) = maxPages c"
  "sameDomainOnly (loggedConfig c) = sameDomainOnly c" "timeout (loggedConfig c) = timeout c"
  "useFallback (loggedConfig c) = useFallback c" "includeImages (loggedConfig c) = includeImages c"
  "headers (loggedConfig c) = headers c" "excludePatterns (loggedConfig c) = excludePatterns c"
  "includePatterns (loggedConfig c) = includePatterns c"
  "onProgress (loggedConfig c) = map_option loggedObserver (onProgress c)"
  by (simp_all add: loggedConfig_def)

lemma logged_attemptCrawl:
  "attemptCrawl P (logged N) url t h i (l, w)
     = (case attemptCrawl P N url t h i w of (r, w') \<Rightarrow> (r, (l @ [url], w')))"
  by (simp add: attemptCrawl_def logged_def Let_def split: prod.splits sum.splits option.splits)

lemma logged_fallback_loop:
  "\<exists>k. crawlWithFallback_loop P (logged N) url (loggedConfig c) sts att (l, w)
     = (case crawlWithFallback_loop P N url c sts att w of
          (r, w') \<Rightarrow> (r, (l @ replicate k url, w')))"
proof (induction sts arbitrary: att l w)
  case Nil
  show ?case by (rule exI[of _ 0]) simp
next
  case (Cons st sts)
  let ?h = "strategy_headers st ++ orDefault (headers c) Map.empty"
  obtain a w1 where a: "attemptCrawl P N url (timeout c) ?h (includeImages c) w = (a, w1)"
    by (cases "attemptCrawl P N url (timeout c) ?h (includeImages c) w")
  show ?case
  proof (cases a)
    case (Inr page)
    show ?thesis
      by (rule exI[of _ 1]) (simp add: logged_attemptCrawl a Inr split: prod.splits)
  next
    case (Inl m)
    show ?thesis
    proof (cases "sts = []")
      case True
      show ?thesis
        by (rule exI[of _ 1]) (simp add: logged_attemptCrawl a Inl True)
    next
      case False
      from Cons.IH[of "att @ [strategy_name st]" "l @ [url]" w1] obtain k where
        k: "crawlWithFallback_loop P (logged N) url (loggedConfig c) sts (att @ [strategy_name st])
              (l @ [url], w1)
            = (case crawlWithFallback_loop P N url c sts (att @ [strategy_name st]) w1 of
                 (r, w') \<Rightarrow> (r, ((l @ [url]) @ replicate k url, w')))"
        by blast
      have "(l @ [url]) @ replicate k url = l @ replicate (Suc k) url" by simp
      with k show ?thesis
        by (intro exI[of _ "Suc k"]) (simp add: logged_attemptCrawl a Inl False)
    qed
  qed
qed

lemma logged_fallback:
  "\<exists>k. crawlWithFallback P (logged N) url (loggedConfig c) (l, w)
     = (case crawlWithFallback P N url c w of (r, w') \<Rightarrow> (r, (l @ replicate k url, w')))"
  using logged_fallback_loop[of P N url c "strategiesToTry c" "[]" l w]
  by (simp add: crawlWithFallback_def strategiesToTry_def)

lemma logged_reportProgress:
  "reportProgress (loggedConfig c) url depth s
     = (fst (world s), reportProgress c url depth (unlogged s))"
  by (simp add: reportProgress_def loggedObserver_def split: option.splits)

lemma logged_shouldCrawl: "shouldCrawl P url d (loggedConfig c) = shouldCrawl P url d c"
  by (simp add: shouldCrawl_def)

lemma logged_loopCondition: "loopCondition (loggedConfig c) s = loopCondition c (unlogged s)"
  by (simp add: loopCondition_def)

lemma logged_recordResult:
  "unlogged (recordResult P (loggedConfig c) url depth r s) = recordResult P c url depth r (unlogged s)"
  "world (recordResult P (loggedConfig c) url depth r s) = world s"
  by (simp_all add: recordResult_def unlogged_def Let_def split: option.splits bool.splits)

lemma logged_crawlStep:
  assumes "queue s = (url, depth) # rest"
  shows "unlogged (crawlStep P (logged N) (loggedConfig c) d s) = crawlStep P N c d (unlogged s)
    \<and> (\<exists>k. requests (crawlStep P (logged N) (loggedConfig c) d s) = requests s @ replicate k url
            \<and> (k \<noteq> 0 \<longrightarrow> url \<in> set (visited (crawlStep P (logged N) (loggedConfig c) d s))))"
proof (cases "url \<in> set (visited s) \<or> greaterNumber depth (toNumber (maxDepth c))
                \<or> \<not> shouldCrawl P url d c")
  case True
  then have "crawlStep P (logged N) (loggedConfig c) d s = s\<lparr>queue := rest\<rparr>"
    "crawlStep P N c d (unlogged s) = (unlogged s)\<lparr>queue := rest\<rparr>"
    using assms by (auto simp: crawlStep_def Let_def logged_shouldCrawl)
  then show ?thesis
    by (auto simp: unlogged_def requests_def intro: exI[of _ 0])
next
  case False
  define s1 where "s1 = s\<lparr>queue := rest, visited := visited s @ [url]\<rparr>"
  define w0 where "w0 = reportProgress c url depth (unlogged s1)"
  obtain r w1 where rw: "crawlWithFallback P N url c w0 = (r, w1)"
    by (cases "crawlWithFallback P N url c w0")
  from logged_fallback[of P N url c "fst (world s)" w0] rw obtain k where
    k: "crawlWithFallback P (logged N) url (loggedConfig c) (fst (world s), w0)
          = (r, (fst (world s) @ replicate k url, w1))"
    by auto
  have rp: "reportProgress (loggedConfig c) url depth s1 = (fst (world s), w0)"
    by (simp add: logged_reportProgress w0_def) (simp add: s1_def)
  have u1: "unlogged s\<lparr>queue := rest, visited := visited s @ [url]\<rparr> = unlogged s1"
    by (simp add: s1_def unlogged_def)
  have lstep: "crawlStep P (logged N) (loggedConfig c) d s
      = recordResult P (loggedConfig c) url depth r
          (s1\<lparr>world := (fst (world s) @ replicate k url, w1)\<rparr>)"
    using False assms rp k
    by (simp add: crawlStep_def Let_def logged_shouldCrawl s1_def[symmetric])
  have pstep: "crawlStep P N c d (unlogged s)
      = recordResult P c url depth r ((unlogged s1)\<lparr>world := w1\<rparr>)"
    using False assms rw
    by (simp add: crawlStep_def Let_def u1 w0_def[symmetric])
  have a: "unlogged (crawlStep P (logged N) (loggedConfig c) d s) = crawlStep P N c d (unlogged s)"
    unfolding lstep pstep logged_recordResult by (simp add: unlogged_def)
  have b: "requests (crawlStep P (logged N) (loggedConfig c) d s) = requests s @ replicate k url"
    unfolding lstep by (simp add: requests_def logged_recordResult)
  have v: "url \<in> set (visited (crawlStep P (logged N) (loggedConfig c) d s))"
    unfolding lstep
    by (simp add: recordResult_def s1_def Let_def split: option.splits bool.splits)
  from a b v show ?thesis by blast
qed

lemma logged_crawlStep_unlogged:
  "unlogged (crawlStep P (logged N) (loggedConfig c) d s) = crawlStep P N c d (unlogged s)"
proof (cases "queue s")
  case Nil
  then show ?thesis by (simp add: crawlStep_def)
next
  case (Cons e rest)
  then have "queue s = (fst e, snd e) # rest" by simp
  from logged_crawlStep[OF this] show ?thesis by blast
qed

lemma crawlLoop_passes:
  assumes "crawlReach P N c d s0 s"
  shows "crawlLoop P N c d s0 = crawlLoop P N c d s"
  using assms
proof (induction rule: crawlReach.induct)
  case start
  show ?case by simp
next
  case (step s)
  then show ?case by (simp add: crawlLoop.simps[of P N c d s])
qed

lemma crawlLoop_char:
  "crawlLoop P N c d s = Some f \<longleftrightarrow> crawlReach P N c d s f \<and> \<not> loopCondition c f"
proof
  assume "crawlLoop P N c d s = Some f"
  from crawlLoop_reach[OF this crawlReach.start]
  show "crawlReach P N c d s f \<and> \<not> loopCondition c f" .
next
  assume a: "crawlReach P N c d s f \<and> \<not> loopCondition c f"
  then have "crawlLoop P N c d s = crawlLoop P N c d f" by (simp add: crawlLoop_passes)
  also have "\<dots> = Some f" using a by (simp add: crawlLoop.simps[of P N c d f])
  finally show "crawlLoop P N c d s = Some f" .
qed


lemma logged_reach_conv:
  assumes "crawlReach P N c d t0 t" and "unlogged s0 = t0"
  shows "\<exists>s. crawlReach P (logged N) (loggedConfig c) d s0 s \<and> unlogged s = t"
  using assms
proof (induction rule: crawlReach.induct)
  case start
  then show ?case by (blast intro: crawlReach.start)
next
  case (step t)
  then obtain s where s: "crawlReach P (logged N) (loggedConfig c) d s0 s" "unlogged s = t"
    by blast
  with step.hyps(2) have "loopCondition (loggedConfig c) s" by (simp add: logged_loopCondition)
  from crawlReach.step[OF s(1) this]
  have "crawlReach P (logged N) (loggedConfig c) d s0 (crawlStep P (logged N) (loggedConfig c) d s)" .
  moreover have "unlogged (crawlStep P (logged N) (loggedConfig c) d s) = crawlStep P N c d t"
    using logged_crawlStep_unlogged[of P N c d s] s(2) by simp
  ultimately show ?case by blast
qed


lemma logged_crawlLoop_conv:
  assumes "crawlLoop P N c d (unlogged s) = Some g"
  shows "\<exists>f. crawlLoop P (logged N) (loggedConfig c) d s = Some f \<and> unlogged f = g"
proof -
  from assms have r: "crawlReach P N c d (unlogged s) g" and n: "\<not> loopCondition c g"
    by (simp_all add: crawlLoop_char)
  from logged_reach_conv[OF r refl] obtain f where
    f: "crawlReach P (logged N) (loggedConfig c) d s f" "unlogged f = g"
    by blast
  with n have "\<not> loopCondition (loggedConfig c) f" by (simp add: logged_loopCondition)
  with f show ?thesis by (auto simp: crawlLoop_char)
qed




























text \<open>
  The rewriting on small inputs.  The last one is the example of the specification:
  a heading and a paragraph with bold text.
\<close>

lemmas markdown_defs = htmlToMarkdown_def decodeHtmlEntities_def entities_def nl_def trim_def
  isWhiteSpace_def fromCharCode_def roundToDouble_def digitsToNat_def rx_defs js_def

lemma markdown_h4: "htmlToMarkdown (js ''<h4>T</h4>'') False = js ''#### T''"
  by (simp add: markdown_defs)

lemma markdown_h5: "htmlToMarkdown (js ''<h5>T</h5>'') False = js ''T''"
  by (simp add: markdown_defs)

lemma markdown_h6: "htmlToMarkdown (js ''<h6>T</h6>'') False = js ''T''"
  by (simp add: markdown_defs)

lemma entities_decimal_hex: "decodeHtmlEntities (js ''&amp;&#65;&#x41;'') = js ''&A&#x41;''"
  by (simp add: markdown_defs)

lemma markdown_example:
  "htmlToMarkdown (js ''<h2>Title</h2><p>Hello <b>world</b></p>'') False
     = js ''## Title'' @ [10, 10] @ js ''Hello **world**''"
  by (simp add: markdown_defs)

section \<open>The claims\<close>

text \<open>
  C1 (budget).  The claim: throughout every invocation of \<open>crawlRecursively\<close> the
  success list and the failed list together are never longer than \<open>maxPages\<close>, the loop
  ends exactly when the bound is reached or the queue is empty, and with
  \<open>maxPages = 1\<close> a page with ten links gives exactly one processed page.

  \<open>maxPages\<close> is a number that the crawler compares as it is given.  With the budget
  one half the first page is processed, and one page is more than the budget; with a
  negative budget the empty lists are more than the budget; with the budget
  \<open>undefined\<close> the loop ends at once, the queue not empty and no bound reached.  For a
  budget that counts pages, an integer that is not negative or infinity, the claim
  holds: in every state at the head of the loop the two lists do not exceed the budget,
  the loop goes on exactly when the queue is not empty and the bound is not reached, the
  run returns whenever the budget is finite, the state it returns with is a state of the
  run whose queue is empty or whose lists have reached the bound, the lists of the
  result respect the bound, and with \<open>maxPages = 1\<close> a start address that passes the
  depth and policy checks gives exactly one processed page, whatever links it has.
\<close>

theorem budget_respected:
  assumes "isCount (toNumber (maxPages (mkConfig options)))"
    and "running P N startUrl options w s"
  shows "\<not> greaterNumber (processed s) (toNumber (maxPages (mkConfig options)))
    \<and> (loopCondition (mkConfig options) s
         \<longleftrightarrow> queue s \<noteq> []
             \<and> toNumber (maxPages (mkConfig options)) \<noteq> Finite (of_int (processed s)))
    \<and> (toNumber (maxPages (mkConfig options)) \<noteq> PosInfinity
         \<longrightarrow> (\<exists>f. finalState P N startUrl options w = Some f))
    \<and> (\<forall>f. finalState P N startUrl options w = Some f
         \<longrightarrow> running P N startUrl options w f
             \<and> (queue f = []
                  \<or> toNumber (maxPages (mkConfig options)) = Finite (of_int (processed f))))
    \<and> (toNumber (maxPages (mkConfig options)) = Finite 1
         \<and> \<not> greaterNumber 0 (toNumber (maxDepth (mkConfig options)))
         \<and> shouldCrawl P (normalizeUrl P startUrl) (extractDomain P startUrl) (mkConfig options)
         \<longrightarrow> (\<exists>f. finalState P N startUrl options w = Some f \<and> processed f = 1))
    \<and> (\<forall>r w'. crawlRecursively P N startUrl options w = Some (r, w')
         \<longrightarrow> \<not> greaterNumber (int (length (out_success r)) + int (length (out_failed r)))
                 (toNumber (maxPages (mkConfig options))))"
proof -
  let ?c = "mkConfig options" and ?d = "extractDomain P startUrl"
  let ?s0 = "initialState P startUrl w" and ?mp = "toNumber (maxPages (mkConfig options))"
  have both: "\<not> greaterNumber (processed t) ?mp
      \<and> (loopCondition ?c t \<longleftrightarrow> queue t \<noteq> [] \<and> ?mp \<noteq> Finite (of_int (processed t)))"
    if run: "running P N startUrl options w t" for t
  proof (cases ?mp)
    case (Finite r)
    with assms(1) have r: "0 \<le> r" "r = of_int \<lfloor>r\<rfloor>" by simp_all
    then have c: "\<lceil>r\<rceil> = \<lfloor>r\<rfloor>" by (metis ceiling_of_int)
    have "processed ?s0 \<le> \<lceil>r\<rceil>" using r c by (simp add: processed_def initialState_def)
    from budget_invariant[OF run[unfolded running_def] Finite this] c
    have le: "processed t \<le> \<lfloor>r\<rfloor>" by simp
    then have "of_int (processed t) \<le> (of_int \<lfloor>r\<rfloor> :: rat)" by simp
    with r(2) have ler: "of_int (processed t) \<le> r" by simp
    then show ?thesis using Finite by (auto simp: loopCondition_def processed_def)
  next
    case PosInfinity
    then show ?thesis by (simp add: loopCondition_def)
  next
    case NegInfinity
    with assms(1) show ?thesis by simp
  next
    case NaN
    with assms(1) show ?thesis by simp
  qed
  have ret: "\<exists>f. finalState P N startUrl options w = Some f" if "?mp \<noteq> PosInfinity"
    unfolding finalState_def using that by (rule crawlLoop_returns)
  have fin: "running P N startUrl options w f
      \<and> (queue f = [] \<or> ?mp = Finite (of_int (processed f)))"
    if f: "finalState P N startUrl options w = Some f" for f
    using finalState_running[OF f] both[OF finalState_running(1)[OF f]] by blast
  have one: "\<exists>f. finalState P N startUrl options w = Some f \<and> processed f = 1"
    if mp: "?mp = Finite 1" and md: "\<not> greaterNumber 0 (toNumber (maxDepth ?c))"
      and sc: "shouldCrawl P (normalizeUrl P startUrl) ?d ?c"
  proof -
    have q: "queue ?s0 = (normalizeUrl P startUrl, 0) # []" by (simp add: initialState_def)
    have c0: "loopCondition ?c ?s0" using mp by (simp add: loopCondition_def initialState_def)
    have p1: "processed (crawlStep P N ?c ?d ?s0) = 1"
      using q
    proof (cases rule: crawlStep_cases[where P = P and N = N and c = ?c and d = ?d])
      case skip
      then show ?thesis using md sc by (simp add: initialState_def)
    next
      case (page clip r)
      then show ?thesis by (simp add: processed_def initialState_def)
    next
      case (failure f)
      then show ?thesis by (simp add: processed_def initialState_def)
    qed
    then have "\<not> loopCondition ?c (crawlStep P N ?c ?d ?s0)"
      using mp by (simp add: loopCondition_def processed_def)
    then have "finalState P N startUrl options w = Some (crawlStep P N ?c ?d ?s0)"
      using c0 by (simp add: finalState_def crawlLoop.simps[of P N ?c ?d ?s0]
                    crawlLoop.simps[of P N ?c ?d "crawlStep P N ?c ?d ?s0"])
    with p1 show ?thesis by simp
  qed
  have res: "\<not> greaterNumber (int (length (out_success r)) + int (length (out_failed r))) ?mp"
    if "crawlRecursively P N startUrl options w = Some (r, w')" for r w'
  proof -
    from that obtain f where f: "finalState P N startUrl options w = Some f"
      and r: "r = \<lparr> out_success = success f, out_failed = failed f, out_visitedUrls = visited f \<rparr>"
      by (auto simp: crawlRecursively_final)
    from both[OF finalState_running(1)[OF f]] r show ?thesis by (simp add: processed_def)
  qed
  from both[OF assms(2)] ret fin one res show ?thesis by blast
qed

theorem budget_respected_witness:
  "isCount (toNumber (maxPages (mkConfig
       (defaultOptions\<lparr>o_maxPages := Given (Finite 1)\<rparr> :: nat RecursiveCrawlOptions))))
   \<and> length demoLinks = 10
   \<and> finalState refPlatform demoNetwork demoStart (defaultOptions\<lparr>o_maxPages := Given (Finite 1)\<rparr>) 0
       = Some \<lparr> visited = [js ''https://a.test/x''], queue = demoQueue, success = [demoClip],
                failed = [], world = 1 \<rparr>
   \<and> running refPlatform demoNetwork demoStart (defaultOptions\<lparr>o_maxPages := Given (Finite 1)\<rparr>) 0
        \<lparr> visited = [js ''https://a.test/x''], queue = demoQueue, success = [demoClip],
          failed = [], world = 1 \<rparr>
   \<and> length demoQueue = 10
   \<and> processed \<lparr> visited = [js ''https://a.test/x''], queue = demoQueue, success = [demoClip],
                 failed = [], world = 1::nat \<rparr> = 1"
proof -
  let ?o = "defaultOptions\<lparr>o_maxPages := Given (Finite 1)\<rparr> :: nat RecursiveCrawlOptions"
  let ?f = "\<lparr> visited = [js ''https://a.test/x''], queue = demoQueue, success = [demoClip],
              failed = [], world = 1::nat \<rparr>"
  have h1: "isCount (toNumber (maxPages (mkConfig ?o)))" by (simp add: config_defs)
  have f: "finalState refPlatform demoNetwork demoStart ?o 0 = Some ?f"
    by (simp add: demo_run1)
  have h2: "running refPlatform demoNetwork demoStart ?o 0 ?f"
    using f by (rule finalState_running)
  from budget_respected[OF h1 h2] h1 h2 f show ?thesis
    by (simp add: demoLinks_def demoQueue_def processed_def)
qed

theorem budget_counterexample:
  "crawlRecursively refPlatform demoNetwork demoStart
       (defaultOptions\<lparr>o_maxPages := Given (Finite (1 / 2))\<rparr>) (0::nat)
     = Some (\<lparr> out_success = [demoClip], out_failed = [],
               out_visitedUrls = [js ''https://a.test/x''] \<rparr>, 1)
   \<and> greaterNumber (int (length [demoClip]) + int (length ([] :: CrawlFailure list))) (Finite (1 / 2))
   \<and> crawlRecursively refPlatform demoNetwork demoStart
       (defaultOptions\<lparr>o_maxPages := Given (Finite (- 1))\<rparr>) (0::nat)
     = Some (\<lparr> out_success = [], out_failed = [], out_visitedUrls = [] \<rparr>, 0)
   \<and> greaterNumber (int (length ([] :: ClipResult list)) + int (length ([] :: CrawlFailure list)))
        (Finite (- 1))
   \<and> finalState refPlatform demoNetwork demoStart (defaultOptions\<lparr>o_maxPages := Undefined\<rparr>) (0::nat)
     = Some \<lparr> visited = [], queue = [(js ''https://a.test/x'', 0)], success = [], failed = [],
              world = 0 \<rparr>
   \<and> \<not> loopCondition (mkConfig (defaultOptions\<lparr>o_maxPages := Undefined\<rparr>))
          \<lparr> visited = [], queue = [(js ''https://a.test/x'', 0)], success = [], failed = [],
            world = 0::nat \<rparr>"
  unfolding crawlRecursively_final demo_run_half demo_run_negative demo_run_undefined
  by (simp add: initialState_def demo_normalize_start loopCondition_def config_defs)




text \<open>
  C10 (visited and recorded).  When \<open>crawlRecursively\<close> returns, \<open>visitedUrls\<close> holds
  exactly the addresses of the success list and the failed list: an address added to the
  visited set is appended to exactly one of the two lists before the next dequeue, and
  no address is in a list without being in the visited set.

  At the head of every iteration, and in every result that is returned, the visited set
  and the addresses of the two lists are the same set, the visited addresses are
  distinct, and there are as many of them as entries in the two lists.  The run returns
  whenever the budget is not infinite.
\<close>

theorem visited_are_recorded:
  assumes "running P N startUrl options w s"
  shows "set (visited s) = set (map clip_url (success s)) \<union> set (map fail_url (failed s))
    \<and> distinct (visited s)
    \<and> length (visited s) = length (success s) + length (failed s)
    \<and> (\<forall>r w'. crawlRecursively P N startUrl options w = Some (r, w')
         \<longrightarrow> set (out_visitedUrls r)
               = set (map clip_url (out_success r)) \<union> set (map fail_url (out_failed r))
             \<and> distinct (out_visitedUrls r)
             \<and> length (out_visitedUrls r) = length (out_success r) + length (out_failed r))
    \<and> (toNumber (maxPages (mkConfig options)) \<noteq> PosInfinity
         \<longrightarrow> crawlRecursively P N startUrl options w \<noteq> None)"
proof -
  have inv: "distinct (visited t) \<and> set (recordedUrls t) = set (visited t)
             \<and> length (recordedUrls t) = length (visited t)"
    if "running P N startUrl options w t" for t
    using that unfolding running_def
    by (rule visit_invariant) (simp_all add: initialState_def recordedUrls_def)
  have res: "set (out_visitedUrls r)
               = set (map clip_url (out_success r)) \<union> set (map fail_url (out_failed r))
             \<and> distinct (out_visitedUrls r)
             \<and> length (out_visitedUrls r) = length (out_success r) + length (out_failed r)"
    if "crawlRecursively P N startUrl options w = Some (r, w')" for r w'
  proof -
    from that obtain f where f: "finalState P N startUrl options w = Some f"
      and r: "r = \<lparr> out_success = success f, out_failed = failed f, out_visitedUrls = visited f \<rparr>"
      by (auto simp: crawlRecursively_final)
    from inv[OF finalState_running(1)[OF f]] show ?thesis
      unfolding r recordedUrls_def by simp
  qed
  have ret: "crawlRecursively P N startUrl options w \<noteq> None"
    if "toNumber (maxPages (mkConfig options)) \<noteq> PosInfinity"
    using crawlLoop_returns[OF that, of P N "extractDomain P startUrl" "initialState P startUrl w"]
    by (auto simp: crawlRecursively_def Let_def)
  from inv[OF assms] res ret show ?thesis
    by (simp add: recordedUrls_def)
qed

theorem visited_are_recorded_witness:
  "running refPlatform demoNetwork demoStart (defaultOptions\<lparr>o_maxPages := Given (Finite 2)\<rparr>) 0
     \<lparr> visited = [js ''https://a.test/x'', js ''https://a.test/y''], queue = tl demoQueue,
       success = [demoClip],
       failed = [\<lparr> fail_url = js ''https://a.test/y'', fail_error = ExtractionFailed,
                    fail_attemptedStrategies = strategyNames, fail_depth = 1 \<rparr>],
       world = 6 \<rparr>
   \<and> toNumber (maxPages (mkConfig (defaultOptions\<lparr>o_maxPages := Given (Finite 2)\<rparr>
                                      :: nat RecursiveCrawlOptions))) \<noteq> PosInfinity
   \<and> crawlRecursively refPlatform demoNetwork demoStart
         (defaultOptions\<lparr>o_maxPages := Given (Finite 2)\<rparr>) (0::nat)
       = Some (\<lparr> out_success = [demoClip],
                 out_failed = [\<lparr> fail_url = js ''https://a.test/y'', fail_error = ExtractionFailed,
                                  fail_attemptedStrategies = strategyNames, fail_depth = 1 \<rparr>],
                 out_visitedUrls = [js ''https://a.test/x'', js ''https://a.test/y''] \<rparr>, 6)
   \<and> set [js ''https://a.test/x'', js ''https://a.test/y'']
       = set (map clip_url [demoClip]) \<union> set [js ''https://a.test/y'']"
proof -
  let ?o = "defaultOptions\<lparr>o_maxPages := Given (Finite 2)\<rparr> :: nat RecursiveCrawlOptions"
  let ?f = "\<lparr> visited = [js ''https://a.test/x'', js ''https://a.test/y''], queue = tl demoQueue,
       success = [demoClip],
       failed = [\<lparr> fail_url = js ''https://a.test/y'', fail_error = ExtractionFailed,
                    fail_attemptedStrategies = strategyNames, fail_depth = 1 \<rparr>],
       world = 6::nat \<rparr>"
  have f: "finalState refPlatform demoNetwork demoStart ?o 0 = Some ?f"
    by (simp add: demo_run2)
  have h: "running refPlatform demoNetwork demoStart ?o 0 ?f"
    using f by (rule finalState_running)
  have m: "toNumber (maxPages (mkConfig ?o)) \<noteq> PosInfinity" by (simp add: config_defs)
  have r: "crawlRecursively refPlatform demoNetwork demoStart ?o 0
       = Some (\<lparr> out_success = success ?f, out_failed = failed ?f, out_visitedUrls = visited ?f \<rparr>,
               world ?f)"
    unfolding crawlRecursively_final f by simp
  from visited_are_recorded[OF h] h m r show ?thesis
    by simp
qed



text \<open>
  C3 (extraction failure).  The claim: when the fetch of an address succeeds but content
  extraction fails, the run continues and records a \<open>CrawlFailure\<close> whose list of
  attempted strategies is empty or partial, strictly shorter than the list of all
  strategies.

  The crawler catches an extraction failure where it catches a transport failure, and
  goes on to the next strategy.  On the small site the page \<open>https://a.test/y\<close> is
  fetched and yields no content under every strategy, and its failure lists all five
  strategies.  What holds: when the fetch of an address succeeds and its extraction
  fails under every strategy that the crawler tries, each one in the world the one
  before it left, the run records a failure with an extraction error whose list names
  every strategy tried, all five with fallback and \<open>default\<close> alone without, never the
  empty list, and goes on with the rest of the queue.
\<close>

theorem extraction_failure_recorded:
  assumes "extractionFails N url c (strategiesToTry c)
             (reportProgress c url depth (s\<lparr>queue := rest, visited := visited s @ [url]\<rparr>))"
    and "queue s = (url, depth) # rest" and "url \<notin> set (visited s)"
    and "\<not> greaterNumber depth (toNumber (maxDepth c))"
    and "shouldCrawl P url d c" and "loopCondition c s"
  shows "\<exists>f. failed (crawlStep P N c d s) = failed s @ [f]
           \<and> fail_url f = url \<and> fail_depth f = depth
           \<and> isExtractionError (fail_error f)
           \<and> fail_attemptedStrategies f
               = map strategy_name (if useFallback c = Some True then strategies else [strategies ! 0])
           \<and> fail_attemptedStrategies f \<noteq> []
           \<and> success (crawlStep P N c d s) = success s
           \<and> queue (crawlStep P N c d s) = rest
           \<and> crawlLoop P N c d s = crawlLoop P N c d (crawlStep P N c d s)"
proof -
  let ?w = "reportProgress c url depth (s\<lparr>queue := rest, visited := visited s @ [url]\<rparr>)"
  let ?sts = "strategiesToTry c"
  have ne: "?sts \<noteq> []" by (simp add: strategiesToTry_def strategies_def)
  from extractionFails_loop[OF assms(1) ne, of P "[]"] obtain m w' where
    r: "crawlWithFallback P N url c ?w =
          (\<lparr> res_success = False, res_data = None, res_extractedLinks = None, res_error = Some m,
             res_attemptedStrategies = map strategy_name ?sts \<rparr>, w')"
    and e: "isExtractionError m"
    by (auto simp: crawlWithFallback_def)
  have eu: "errorOrUnknown (Some m) = m"
    using e by (cases m) (simp_all add: errorOrUnknown_def)
  have step: "crawlStep P N c d s =
      s\<lparr> queue := rest, visited := visited s @ [url], world := w',
         failed := failed s @ [\<lparr> fail_url = url, fail_error = m,
                                 fail_attemptedStrategies = map strategy_name ?sts,
                                 fail_depth = depth \<rparr>] \<rparr>"
    using crawlStep_failure[OF assms(2-5) r] eu by simp
  have loop: "crawlLoop P N c d s = crawlLoop P N c d (crawlStep P N c d s)"
    using assms(6) by (simp add: crawlLoop.simps[of P N c d s])
  show ?thesis
    unfolding step using loop[unfolded step] e ne by (simp add: strategiesToTry_def)
qed

theorem extraction_failure_recorded_witness:
  "extractionFails demoNetwork (js ''https://a.test/y'') (mkConfig defaultOptions)
      (strategiesToTry (mkConfig defaultOptions :: nat CrawlConfig)) (1::nat)
   \<and> strategiesToTry (mkConfig defaultOptions :: nat CrawlConfig) = strategies
   \<and> shouldCrawl refPlatform (js ''https://a.test/y'') (js ''a.test'')
         (mkConfig defaultOptions :: nat CrawlConfig)
   \<and> (\<exists>f. failed (crawlStep refPlatform demoNetwork (mkConfig defaultOptions) (js ''a.test'')
                    \<lparr> visited = [js ''https://a.test/x''], queue = demoQueue,
                      success = [demoClip], failed = [], world = 1 \<rparr>) = [f]
          \<and> fail_url f = js ''https://a.test/y''
          \<and> isExtractionError (fail_error f)
          \<and> fail_attemptedStrategies f = strategyNames)"
proof -
  let ?c = "mkConfig defaultOptions :: nat CrawlConfig"
  let ?y = "js ''https://a.test/y''"
  let ?s = "\<lparr> visited = [js ''https://a.test/x''], queue = demoQueue, success = [demoClip],
              failed = [], world = 1::nat \<rparr>"
  have w: "reportProgress ?c ?y 1 (?s\<lparr>queue := tl demoQueue, visited := visited ?s @ [?y]\<rparr>) = 1"
    by (simp add: reportProgress_def config_defs)
  have e: "extractionFails demoNetwork ?y ?c (strategiesToTry ?c) (1::nat)"
    by (rule demo_y_extractionFails)
  have h1: "extractionFails demoNetwork ?y ?c (strategiesToTry ?c)
              (reportProgress ?c ?y 1 (?s\<lparr>queue := tl demoQueue, visited := visited ?s @ [?y]\<rparr>))"
    unfolding w by (rule e)
  have h2: "queue ?s = (?y, 1) # tl demoQueue" by (simp add: demoQueue_def)
  have h3: "?y \<notin> set (visited ?s)" by (simp add: js_def)
  have h4: "\<not> greaterNumber 1 (toNumber (maxDepth ?c))" by (simp add: config_defs)
  have h5: "shouldCrawl refPlatform ?y (js ''a.test'') ?c" by (rule demo_y_admitted)
  have h6: "loopCondition ?c ?s" by (simp add: loopCondition_def config_defs demoQueue_def)
  have u: "useFallback ?c = Some True" by (simp add: config_defs)
  have t: "strategiesToTry ?c = strategies" by (simp add: strategiesToTry_def u)
  from extraction_failure_recorded[OF h1 h2 h3 h4 h5 h6] e t h5 u show ?thesis
    unfolding strategyNames_def strategies_def by auto
qed

theorem extraction_failure_counterexample:
  "extractionFails demoNetwork (js ''https://a.test/y'')
      (mkConfig (defaultOptions\<lparr>o_maxPages := Given (Finite 2)\<rparr>)) strategies (1::nat)
   \<and> crawlRecursively refPlatform demoNetwork demoStart
         (defaultOptions\<lparr>o_maxPages := Given (Finite 2)\<rparr>) (0::nat)
       = Some (\<lparr> out_success = [demoClip],
                 out_failed = [\<lparr> fail_url = js ''https://a.test/y'', fail_error = ExtractionFailed,
                                  fail_attemptedStrategies = strategyNames, fail_depth = 1 \<rparr>],
                 out_visitedUrls = [js ''https://a.test/x'', js ''https://a.test/y''] \<rparr>, 6)
   \<and> strategyNames = map strategy_name strategies
   \<and> length strategyNames = 5"
proof -
  have e: "extractionFails demoNetwork (js ''https://a.test/y'')
      (mkConfig (defaultOptions\<lparr>o_maxPages := Given (Finite 2)\<rparr>)) strategies (1::nat)"
    by (rule demo_y_extractionFails)
  have n: "strategyNames = map strategy_name strategies" "length strategyNames = 5"
    by (simp_all add: strategyNames_def strategies_def)
  show ?thesis
    unfolding crawlRecursively_final demo_run2 using e n by simp
qed

text \<open>
  C4 (final address).  The claim: a successful attempt returns the raw HTML and the
  address reached after redirects, and the address of the page record is that final
  address, not the requested one.

  The crawler never reads \<open>response.url\<close>.  On the small site the start page is reached
  through a redirect to \<open>https://a.test/landing\<close>, and its record carries
  \<open>https://a.test/x\<close>.  What holds: a successful
  attempt returns the page record and the extracted links; the content of the record is
  the normalized text of the fetched body, its address is the requested address, and
  the result is the same whatever final address the responses report.
\<close>

theorem attempt_keeps_requested_address:
  assumes "attemptCrawl P N url t h i w = (Inr (clip, links), w')"
  shows "clip_url clip = url
    \<and> attemptCrawl P (withFinalUrls g N) url t h i w = (Inr (clip, links), w')
    \<and> (\<exists>response html document result.
          fetch N w url h t = (Inr response, w') \<and> ok response
          \<and> bodyText response = Inr html
          \<and> parseDocument N html url = Inr document
          \<and> defuddle document = Some result
          \<and> clip_content clip = htmlToMarkdown (d_content result) (orDefault i False)
          \<and> links = extractLinks P document url)"
proof -
  have a: "clip_url clip = url" using assms by (rule attemptCrawl_url)
  have b: "attemptCrawl P (withFinalUrls g N) url t h i w = (Inr (clip, links), w')"
    using assms by (simp add: attemptCrawl_withFinalUrls)
  have c: "\<exists>response html document result.
          fetch N w url h t = (Inr response, w') \<and> ok response
          \<and> bodyText response = Inr html
          \<and> parseDocument N html url = Inr document
          \<and> defuddle document = Some result
          \<and> clip_content clip = htmlToMarkdown (d_content result) (orDefault i False)
          \<and> links = extractLinks P document url"
    using assms
    by (auto simp: attemptCrawl_def Let_def split: prod.splits sum.splits option.splits if_splits)
  from a b c show ?thesis by blast
qed

theorem attempt_keeps_requested_address_witness:
  "attemptCrawl refPlatform demoNetwork (js ''https://a.test/x'') (Some (Finite 15000)) Map.empty None
       (0::nat)
     = (Inr (demoClip, demoLinks), 1)
   \<and> clip_url demoClip = js ''https://a.test/x''
   \<and> attemptCrawl refPlatform (withFinalUrls (\<lambda>_. js ''https://elsewhere.test/'') demoNetwork)
         (js ''https://a.test/x'') (Some (Finite 15000)) Map.empty None (0::nat)
     = (Inr (demoClip, demoLinks), 1)"
proof -
  have h: "attemptCrawl refPlatform demoNetwork (js ''https://a.test/x'') (Some (Finite 15000))
             Map.empty None (0::nat)
             = (Inr (demoClip, demoLinks), 1)"
    by (simp add: demo_attempt_x)
  from attempt_keeps_requested_address[OF h, of "\<lambda>_. js ''https://elsewhere.test/''"] h
  show ?thesis by simp
qed

theorem final_address_counterexample:
  "fst (fetch demoNetwork (0::nat) (js ''https://a.test/x'') Map.empty (Some (Finite 15000)))
     = Inr (htmlResponse (js ''x'') (js ''https://a.test/landing''))
   \<and> responseUrl (htmlResponse (js ''x'') (js ''https://a.test/landing'')) = js ''https://a.test/landing''
   \<and> fst (attemptCrawl refPlatform demoNetwork (js ''https://a.test/x'') (Some (Finite 15000))
            Map.empty None (0::nat))
       = Inr (demoClip, demoLinks)
   \<and> clip_url demoClip = js ''https://a.test/x''
   \<and> clip_url demoClip \<noteq> js ''https://a.test/landing''"
  by (simp add: demo_attempt_x demoClip_def)
     (simp add: demoNetwork_def htmlResponse_def js_def)







text \<open>
  C8 (empty domain).  The claim: \<open>extractDomain\<close> gives the lowercase host name of an
  address that parses and the empty string otherwise, and the same-domain check never
  accepts an address whose domain is empty.

  The check compares the two domains and nothing else.  A start address that does not
  parse gives the empty start domain, and with it the check accepts the address whose
  domain is empty: the run started at \<open>Not A URL\<close> visits \<open>not a url\<close>.  What holds:
  \<open>extractDomain\<close> is as claimed; under \<open>sameDomainOnly\<close>, which is every setting but
  \<open>false\<close>, an accepted address has the start domain as its domain, so an address with
  the empty domain is rejected whenever the start domain is not empty.
\<close>

theorem empty_domain_scoping:
  "extractDomain P url
     = (case parseUrl P url of None \<Rightarrow> [] | Some parsed \<Rightarrow> toLowerCase P (hostname parsed))
   \<and> (sameDomainOnly c \<noteq> Some False \<and> shouldCrawl P url startDomain c
        \<longrightarrow> extractDomain P url = startDomain)
   \<and> (sameDomainOnly c \<noteq> Some False \<and> extractDomain P url = [] \<and> startDomain \<noteq> []
        \<longrightarrow> \<not> shouldCrawl P url startDomain c)"
  by (auto simp: extractDomain_def shouldCrawl_def)

theorem empty_domain_scoping_witness:
  "sameDomainOnly (mkConfig defaultOptions :: nat CrawlConfig) \<noteq> Some False
   \<and> extractDomain refPlatform (js ''not a url'') = []
   \<and> js ''a.test'' \<noteq> []
   \<and> \<not> shouldCrawl refPlatform (js ''not a url'') (js ''a.test'')
         (mkConfig defaultOptions :: nat CrawlConfig)"
proof -
  let ?c = "mkConfig defaultOptions :: nat CrawlConfig"
  have h1: "sameDomainOnly ?c \<noteq> Some False" by (simp add: config_defs)
  have h2: "js ''a.test'' \<noteq> []" by (simp add: js_def)
  from empty_domain_scoping[of refPlatform "js ''not a url''" ?c "js ''a.test''"]
    h1 h2 demo_nourl_domain
  show ?thesis by simp
qed

theorem empty_domain_counterexample:
  "sameDomainOnly (mkConfig defaultOptions :: nat CrawlConfig) = Some True
   \<and> extractDomain refPlatform (js ''not a url'') = []
   \<and> shouldCrawl refPlatform (js ''not a url'') (extractDomain refPlatform (js ''Not A URL''))
        (mkConfig defaultOptions :: nat CrawlConfig)
   \<and> crawlRecursively refPlatform demoNetwork (js ''Not A URL'') defaultOptions (0::nat)
       = Some (\<lparr> out_success = [],
                 out_failed = [\<lparr> fail_url = js ''not a url'',
                                  fail_error = Thrown (js ''Invalid URL''),
                                  fail_attemptedStrategies = strategyNames, fail_depth = 0 \<rparr>],
                 out_visitedUrls = [js ''not a url''] \<rparr>, 5)"
  unfolding crawlRecursively_final demo_run_nourl
  by (simp add: demo_nourl_domain demo_nourl_start_domain shouldCrawl_def config_defs)

text \<open>
  C6 (headings and entities).  The claim: the markup-to-text normalization of the
  recursive crawler turns every heading level \<open>h1\<close> to \<open>h6\<close> into the markdown prefix
  of its level and decodes named, decimal and hexadecimal entities.

  The crawler's \<open>htmlToMarkdown\<close> rewrites \<open>h1\<close> to \<open>h4\<close> only and its
  \<open>decodeHtmlEntities\<close> has no rule for hexadecimal entities, while the copy of the two
  functions in the single-page clipper has both.  A heading of level 5 or 6 loses its
  tags and gets no prefix, and a hexadecimal entity stays as it is written.
\<close>

theorem markup_misses_h5_h6_and_hex:
  "htmlToMarkdown (js ''<h4>T</h4>'') False = js ''#### T''
   \<and> htmlToMarkdown (js ''<h5>T</h5>'') False = js ''T''
   \<and> htmlToMarkdown (js ''<h6>T</h6>'') False = js ''T''
   \<and> decodeHtmlEntities (js ''&amp;&#65;&#x41;'') = js ''&A&#x41;''"
  using markdown_h4 markdown_h5 markdown_h6 entities_decimal_hex by simp

end
